theory Spec2Isabelle
  imports Main
begin

section \<open>Python values\<close>

text \<open>
  The handler of \<^verbatim>\<open>src/aws-batch/entrypoint.py\<close> moves JSON around: the event, the
  state blob kept in DynamoDB, the response. Python dictionaries keep insertion order
  and have one entry per key, so a dictionary is an association list that is only ever
  extended through \<open>dict_set\<close>. Strings are ASCII.
\<close>

datatype json = JNull | JInt int | JStr string | JList "json list" | JObj "(string \<times> json) list"

type_synonym dict = "(string \<times> json) list"

fun dict_set :: "('k \<times> 'v) list \<Rightarrow> 'k \<Rightarrow> 'v \<Rightarrow> ('k \<times> 'v) list" where
  "dict_set [] k v = [(k, v)]"
| "dict_set ((k', v') # d) k v = (if k' = k then (k, v) # d else (k', v') # dict_set d k v)"

text \<open>\<^verbatim>\<open>{**a, **b}\<close>\<close>

definition dict_merge :: "dict \<Rightarrow> dict \<Rightarrow> dict" where
  "dict_merge a b = fold (\<lambda>kv d. dict_set d (fst kv) (snd kv)) b a"

text \<open>Python truthiness, as \<^verbatim>\<open>x or {}\<close> reads it.\<close>

fun truthy :: "json \<Rightarrow> bool" where
  "truthy JNull = False"
| "truthy (JInt n) = (n \<noteq> 0)"
| "truthy (JStr s) = (s \<noteq> [])"
| "truthy (JList xs) = (xs \<noteq> [])"
| "truthy (JObj d) = (d \<noteq> [])"

fun starts_with :: "string \<Rightarrow> string \<Rightarrow> bool" where
  "starts_with s [] = True"
| "starts_with [] (c # p) = False"
| "starts_with (x # s) (c # p) = (x = c \<and> starts_with s p)"

text \<open>\<^verbatim>\<open>p in s\<close> on strings.\<close>

fun contains :: "string \<Rightarrow> string \<Rightarrow> bool" where
  "contains [] p = (p = [])"
| "contains (x # s) p = (starts_with (x # s) p \<or> contains s p)"

subsection \<open>Exceptions\<close>

datatype error =
    ClientError string string string
  | ParamValidationError string
  | IndexError string
  | KeyError string
  | TypeError string
  | AttributeError string
  | OtherException string

text \<open>
  \<open>ClientError op code msg\<close> is botocore's exception for an error response of the
  service: the operation, \<^verbatim>\<open>e.response["Error"]["Code"]\<close> and
  \<^verbatim>\<open>e.response["Error"]["Message"]\<close>. \<open>str_error\<close> is \<^verbatim>\<open>str(e)\<close>; a
  \<^verbatim>\<open>KeyError\<close> prints the repr of its key.
\<close>

fun str_error :: "error \<Rightarrow> string" where
  "str_error (ClientError op code msg) =
     ''An error occurred ('' @ code @ '') when calling the '' @ op @ '' operation: '' @ msg"
| "str_error (ParamValidationError m) = m"
| "str_error (IndexError m) = m"
| "str_error (KeyError k) = [CHR 0x27] @ k @ [CHR 0x27]"
| "str_error (TypeError m) = m"
| "str_error (AttributeError m) = m"
| "str_error (OtherException m) = m"

subsection \<open>\<^verbatim>\<open>json.dumps\<close> of a flat dictionary of strings\<close>

definition hex_digit :: "nat \<Rightarrow> char" where
  "hex_digit n = ''0123456789abcdef'' ! (n mod 16)"

definition escape_char :: "char \<Rightarrow> string" where
  "escape_char c =
     (if c = CHR 0x22 then [CHR 0x5C, CHR 0x22]
      else if c = CHR 0x5C then [CHR 0x5C, CHR 0x5C]
      else if c = CHR 0x0A then [CHR 0x5C, CHR ''n'']
      else if c = CHR 0x0D then [CHR 0x5C, CHR ''r'']
      else if c = CHR 0x09 then [CHR 0x5C, CHR ''t'']
      else if c = CHR 0x08 then [CHR 0x5C, CHR ''b'']
      else if c = CHR 0x0C then [CHR 0x5C, CHR ''f'']
      else if of_char c < (32::nat) \<or> (126::nat) < of_char c
        then [CHR 0x5C, CHR ''u'', CHR ''0'', CHR ''0'',
              hex_digit (of_char c div 16), hex_digit (of_char c)]
      else [c])"

definition dumps_str :: "string \<Rightarrow> string" where
  "dumps_str s = [CHR 0x22] @ concat (map escape_char s) @ [CHR 0x22]"

text \<open>\<^verbatim>\<open>json.dumps(d, separators=(",", ":"))\<close> for a dictionary whose values are strings.\<close>

fun dumps_items :: "(string \<times> string) list \<Rightarrow> string" where
  "dumps_items [] = []"
| "dumps_items [(k, v)] = dumps_str k @ '':'' @ dumps_str v"
| "dumps_items ((k, v) # kvs) = dumps_str k @ '':'' @ dumps_str v @ '','' @ dumps_items kvs"

definition dumps_compact :: "(string \<times> string) list \<Rightarrow> string" where
  "dumps_compact d = ''{'' @ dumps_items d @ ''}''"

subsection \<open>\<^verbatim>\<open>repr\<close> of a value\<close>

definition digit_char :: "nat \<Rightarrow> char" where
  "digit_char n = ''0123456789'' ! (n mod 10)"

fun nat_str :: "nat \<Rightarrow> string" where
  "nat_str n = (if n < 10 then [digit_char n] else nat_str (n div 10) @ [digit_char n])"

definition int_str :: "int \<Rightarrow> string" where
  "int_str i = (if i < 0 then ''-'' @ nat_str (nat (- i)) else nat_str (nat i))"

fun join :: "string \<Rightarrow> string list \<Rightarrow> string" where
  "join sep [] = []"
| "join sep [x] = x"
| "join sep (x # y # ys) = x @ sep @ join sep (y # ys)"

text \<open>One character inside a string literal delimited by \<open>q\<close>.\<close>

definition repr_char :: "char \<Rightarrow> char \<Rightarrow> string" where
  "repr_char q c =
     (if c = CHR 0x5C then [CHR 0x5C, CHR 0x5C]
      else if c = q then [CHR 0x5C, q]
      else if c = CHR 0x0A then [CHR 0x5C, CHR ''n'']
      else if c = CHR 0x0D then [CHR 0x5C, CHR ''r'']
      else if c = CHR 0x09 then [CHR 0x5C, CHR ''t'']
      else if of_char c < (32::nat) \<or> (126::nat) < of_char c
        then [CHR 0x5C, CHR ''x'', hex_digit (of_char c div 16), hex_digit (of_char c)]
      else [c])"

text \<open>Single quotes, unless the string has a single quote and no double quote.\<close>

definition repr_str :: "string \<Rightarrow> string" where
  "repr_str s =
     (if CHR 0x27 \<in> set s \<and> CHR 0x22 \<notin> set s
      then [CHR 0x22] @ concat (map (repr_char (CHR 0x22)) s) @ [CHR 0x22]
      else [CHR 0x27] @ concat (map (repr_char (CHR 0x27)) s) @ [CHR 0x27])"

fun py_repr :: "json \<Rightarrow> string" where
  "py_repr JNull = ''None''"
| "py_repr (JInt n) = int_str n"
| "py_repr (JStr s) = repr_str s"
| "py_repr (JList xs) = ''['' @ join '', '' (map py_repr xs) @ '']''"
| "py_repr (JObj d) =
     ''{'' @ join '', '' (map (\<lambda>kv. repr_str (fst kv) @ '': '' @ py_repr (snd kv)) d) @ ''}''"

fun py_type_name :: "json \<Rightarrow> string" where
  "py_type_name JNull = ''NoneType''"
| "py_type_name (JInt n) = ''int''"
| "py_type_name (JStr s) = ''str''"
| "py_type_name (JList xs) = ''list''"
| "py_type_name (JObj d) = ''dict''"

text \<open>
  The report of botocore's parameter validation for a value of the wrong type, where
  the service model wants \<open>valid\<close>.
\<close>

definition invalid_type :: "string \<Rightarrow> json \<Rightarrow> string \<Rightarrow> string" where
  "invalid_type name v valid =
     ''Parameter validation failed:'' @ [CHR 0x0A] @ ''Invalid type for parameter '' @ name @
     '', value: '' @ py_repr v @ '', type: <class '' @ [CHR 0x27] @ py_type_name v @ [CHR 0x27] @
     ''>, valid types: <class '' @ [CHR 0x27] @ valid @ [CHR 0x27] @ ''>''"

section \<open>The services\<close>

text \<open>
  One row of the DynamoDB table: the attributes \<^verbatim>\<open>lock_key\<close>, \<^verbatim>\<open>update_time\<close> and
  \<^verbatim>\<open>obj\<close>, each absent or present. \<^verbatim>\<open>obj\<close> is stored as the \<^verbatim>\<open>json.dumps\<close> of the
  state and read back with \<^verbatim>\<open>json.loads\<close>; the model keeps the value itself.
\<close>

record row =
  lock_key :: "string option"
  update_time :: "int option"
  obj :: "json option"

text \<open>What \<^verbatim>\<open>describe_jobs\<close> tells of a job, as far as \<^verbatim>\<open>Batch.update\<close> reads it.\<close>

datatype container = Container (reason: "string option")

datatype attempt = Attempt (container: "container option")

record job =
  j_status :: string
  j_attempts :: "attempt list option"
  j_statusReason :: "string option"

record job_definition =
  jd_name :: string
  jd_props :: dict
  jd_active :: bool

text \<open>The requests sent to the services, in the order they are sent.\<close>

datatype call =
    DbLock string string
  | DbPut string string json
  | DbGet string
  | DbUnlock string string
  | DbDelete string string
  | S3Head string
  | S3Get string
  | S3Put string string
  | BatchRegister string dict
  | BatchSubmit string string string
  | BatchDescribe string
  | BatchDeregister string

text \<open>
  The world outside one invocation. \<open>faults\<close> is the services' misbehaviour: the
  \<open>n\<close>-th request ever sent fails with that exception and has no effect. \<open>arn_at\<close>
  and \<open>job_id_at\<close> are the identifiers the Batch service chooses when the \<open>n\<close>-th request
  registers a job definition or submits a job.
\<close>

record world =
  clock :: int
  table :: "string \<rightharpoonup> row"
  s3 :: "string \<rightharpoonup> string"
  job_defs :: "string \<rightharpoonup> job_definition"
  jobs :: "string \<rightharpoonup> job"
  trace :: "call list"
  faults :: "nat \<Rightarrow> error option"
  arn_at :: "nat \<Rightarrow> string"
  job_id_at :: "nat \<Rightarrow> string"

text \<open>
  The environment variables read by the module, and two pieces of the libraries as
  parameters: \<^verbatim>\<open>dedent(script).strip()\<close> of Python's \<^verbatim>\<open>textwrap\<close>, and botocore's
  validation of \<^verbatim>\<open>containerProperties\<close> against the service model of AWS Batch, which
  gives the report of what is invalid, or nothing.
\<close>

record config =
  S3_BUCKET :: string
  S3_PREFIX :: "string option"
  DELETE_DYNAMO_ON_FAIL :: "string option"
  BATCH_TASK_ROLE_ARN :: "string option"
  GPU_QUEUE :: "string option"
  CPU_QUEUE :: "string option"
  dedent_strip :: "string \<Rightarrow> string"
  validate_props :: "dict \<Rightarrow> string option"

definition TIMEOUT :: int where
  "TIMEOUT = 5"

definition MAX_ITERS :: int where
  "MAX_ITERS = 10"

definition DFLT_PROP :: dict where
  "DFLT_PROP = [(''vcpus'', JInt 1), (''memory'', JInt 512)]"

definition PENDING_STATES :: "string list" where
  "PENDING_STATES = [''SUBMITTED'', ''PENDING'', ''RUNNABLE'', ''STARTING'', ''RUNNING'']"

definition SUCCESS_STATE :: string where
  "SUCCESS_STATE = ''SUCCEEDED''"

definition FAILED_STATE :: string where
  "FAILED_STATE = ''FAILED''"

subsection \<open>Computations that talk to the world and may raise\<close>

type_synonym 'a io = "world \<Rightarrow> (error + 'a) \<times> world"

definition return :: "'a \<Rightarrow> 'a io" where
  "return x w = (Inr x, w)"

definition raise :: "error \<Rightarrow> 'a io" where
  "raise e w = (Inl e, w)"

definition bnd :: "'a io \<Rightarrow> ('a \<Rightarrow> 'b io) \<Rightarrow> 'b io" where
  "bnd m f w = (case m w of (Inl e, w') \<Rightarrow> (Inl e, w') | (Inr x, w') \<Rightarrow> f x w')"

definition lift :: "error + 'a \<Rightarrow> 'a io" where
  "lift r w = (r, w)"

text \<open>\<^verbatim>\<open>try: m except ...: h\<close>, with \<open>h\<close> re-raising what its clause does not catch.\<close>

definition try_except :: "'a io \<Rightarrow> (error \<Rightarrow> 'a io) \<Rightarrow> 'a io" where
  "try_except m h w = (case m w of (Inl e, w') \<Rightarrow> h e w' | (Inr x, w') \<Rightarrow> (Inr x, w'))"

text \<open>
  \<^verbatim>\<open>try: m finally: f\<close>: \<open>f\<close> runs whatever \<open>m\<close> did; the outcome is that of \<open>m\<close>
  unless \<open>f\<close> raises.
\<close>

definition try_finally :: "'a io \<Rightarrow> 'b io \<Rightarrow> 'a io" where
  "try_finally m f w =
     (case m w of (r, w') \<Rightarrow>
        (case f w' of (Inl e, w'') \<Rightarrow> (Inl e, w'') | (Inr u, w'') \<Rightarrow> (r, w'')))"

definition request :: "call \<Rightarrow> unit io" where
  "request c w =
     (case faults w (length (trace w)) of
        Some e \<Rightarrow> (Inl e, w\<lparr>trace := trace w @ [c]\<rparr>)
      | None \<Rightarrow> (Inr (), w\<lparr>trace := trace w @ [c]\<rparr>))"

definition now :: "int io" where
  "now w = (Inr (clock w), w)"

subsection \<open>S3\<close>

definition head_object :: "string \<Rightarrow> unit io" where
  "head_object key =
     bnd (request (S3Head key)) (\<lambda>u w.
       case s3 w key of
         None \<Rightarrow> (Inl (ClientError ''HeadObject'' ''404'' ''Not Found''), w)
       | Some body \<Rightarrow> (Inr (), w))"

definition get_object :: "string \<Rightarrow> string io" where
  "get_object key =
     bnd (request (S3Get key)) (\<lambda>u w.
       case s3 w key of
         None \<Rightarrow> (Inl (ClientError ''GetObject'' ''NoSuchKey'' ''The specified key does not exist.''), w)
       | Some body \<Rightarrow> (Inr body, w))"

definition put_object :: "string \<Rightarrow> string \<Rightarrow> unit io" where
  "put_object key body =
     bnd (request (S3Put key body)) (\<lambda>u w. (Inr (), w\<lparr>s3 := (s3 w)(key \<mapsto> body)\<rparr>))"

definition s3_get :: "string \<Rightarrow> string option io" where
  "s3_get key =
     bnd (try_except (bnd (head_object key) (\<lambda>u. return True))
            (\<lambda>e. case e of
                    ClientError op code msg \<Rightarrow> if code = ''404'' then return False else raise e
                  | _ \<Rightarrow> raise e))
       (\<lambda>found. if found then bnd (get_object key) (\<lambda>body. return (Some body)) else return None)"

definition s3_put :: "config \<Rightarrow> string \<Rightarrow> string \<Rightarrow> string io" where
  "s3_put cfg data key =
     bnd (put_object key data) (\<lambda>u. return (''s3://'' @ S3_BUCKET cfg @ ''/'' @ key))"

subsection \<open>DynamoDB\<close>

definition empty_row :: row where
  "empty_row = \<lparr>lock_key = None, update_time = None, obj = None\<rparr>"

text \<open>
  \<^verbatim>\<open>attribute_not_exists(#lk) OR #lk = :lk OR #ut < :to\<close>, on the item or on no item.
  A comparison with an absent attribute is false.
\<close>

definition lock_condition :: "string \<Rightarrow> int \<Rightarrow> row option \<Rightarrow> bool" where
  "lock_condition lk to r =
     (case r of
        None \<Rightarrow> True
      | Some x \<Rightarrow>
          lock_key x = None \<or> lock_key x = Some lk \<or>
          (case update_time x of None \<Rightarrow> False | Some ut \<Rightarrow> ut < to))"

text \<open>\<^verbatim>\<open>#lk = :lk\<close>\<close>

definition owner_condition :: "string \<Rightarrow> row option \<Rightarrow> bool" where
  "owner_condition lk r = (case r of None \<Rightarrow> False | Some x \<Rightarrow> lock_key x = Some lk)"

text \<open>
  \<^verbatim>\<open>update_item\<close> with a condition expression: the update is applied to the item (or to
  a new one) when the condition holds, and refused otherwise.
\<close>

definition update_item :: "call \<Rightarrow> string \<Rightarrow> (row option \<Rightarrow> bool) \<Rightarrow> (row \<Rightarrow> row) \<Rightarrow> unit io" where
  "update_item c k cond upd =
     bnd (request c) (\<lambda>u w.
       if cond (table w k)
       then (Inr (), w\<lparr>table := (table w)(k \<mapsto>
               upd (case table w k of None \<Rightarrow> empty_row | Some r \<Rightarrow> r))\<rparr>)
       else (Inl (ClientError ''UpdateItem'' ''ConditionalCheckFailedException''
                    ''The conditional request failed''), w))"

definition get_item :: "string \<Rightarrow> row option io" where
  "get_item k = bnd (request (DbGet k)) (\<lambda>u w. (Inr (table w k), w))"

definition delete_item :: "call \<Rightarrow> string \<Rightarrow> (row option \<Rightarrow> bool) \<Rightarrow> unit io" where
  "delete_item c k cond =
     bnd (request c) (\<lambda>u w.
       if cond (table w k)
       then (Inr (), w\<lparr>table := (table w)(k := None)\<rparr>)
       else (Inl (ClientError ''DeleteItem'' ''ConditionalCheckFailedException''
                    ''The conditional request failed''), w))"

record dynamo =
  d_cache_key :: string
  run_id :: string

text \<open>\<^verbatim>\<open>key or self.cache_key\<close>\<close>

definition key_or :: "string option \<Rightarrow> string \<Rightarrow> string" where
  "key_or key ck = (case key of None \<Rightarrow> ck | Some k \<Rightarrow> if k = [] then ck else k)"

text \<open>\<^verbatim>\<open>Dynamo._update\<close>\<close>

definition dynamo_update ::
  "dynamo \<Rightarrow> string option \<Rightarrow> call \<Rightarrow> (row option \<Rightarrow> bool) \<Rightarrow> (row \<Rightarrow> row) \<Rightarrow> bool io" where
  "dynamo_update d key c cond upd =
     try_except
       (bnd (update_item c (key_or key (d_cache_key d)) cond upd) (\<lambda>u. return True))
       (\<lambda>e. case e of
               ClientError op code msg \<Rightarrow>
                 if code = ''ConditionalCheckFailedException'' then return False else raise e
             | _ \<Rightarrow> raise e)"

definition put :: "dynamo \<Rightarrow> dict \<Rightarrow> bool io" where
  "put d ob =
     bnd now (\<lambda>ut.
       dynamo_update d None (DbPut (d_cache_key d) (run_id d) (JObj ob))
         (lock_condition (run_id d) (ut - TIMEOUT))
         (\<lambda>r. r\<lparr>lock_key := Some (run_id d), update_time := Some ut, obj := Some (JObj ob)\<rparr>))"

definition get :: "dynamo \<Rightarrow> json option io" where
  "get d =
     bnd (get_item (d_cache_key d)) (\<lambda>item.
       case item of
         None \<Rightarrow> raise (KeyError ''Item'')
       | Some r \<Rightarrow> return (obj r))"

definition lock :: "dynamo \<Rightarrow> string option \<Rightarrow> bool io" where
  "lock d key =
     bnd now (\<lambda>ut.
       dynamo_update d key (DbLock (key_or key (d_cache_key d)) (run_id d))
         (lock_condition (run_id d) (ut - TIMEOUT))
         (\<lambda>r. r\<lparr>lock_key := Some (run_id d), update_time := Some ut\<rparr>))"

definition unlock :: "dynamo \<Rightarrow> string option \<Rightarrow> bool io" where
  "unlock d key =
     bnd now (\<lambda>ut.
       dynamo_update d key (DbUnlock (key_or key (d_cache_key d)) (run_id d))
         (owner_condition (run_id d))
         (\<lambda>r. r\<lparr>lock_key := None, update_time := Some ut\<rparr>))"

definition delete :: "dynamo \<Rightarrow> unit io" where
  "delete d =
     bnd now (\<lambda>ut.
       delete_item (DbDelete (d_cache_key d) (run_id d)) (d_cache_key d)
         (lock_condition (run_id d) (ut - TIMEOUT)))"

section \<open>The Batch client\<close>

text \<open>
  The dataclass \<^verbatim>\<open>Batch\<close>. Python checks no field type, so a field holds whatever
  JSON value the stored state gave it. \<open>client\<close> is \<open>None\<close> for the boto3 client the
  default factory makes, and \<open>Some v\<close> when the keyword \<^verbatim>\<open>client\<close> was given.
\<close>

record batch =
  cache_key :: string
  job_id :: json
  job_def :: json
  status :: json
  iters :: json
  client :: "json option"

text \<open>One keyword argument of \<^verbatim>\<open>Batch(event["cache_key"], **info)\<close>.\<close>

definition set_field :: "batch \<Rightarrow> string \<times> json \<Rightarrow> error + batch" where
  "set_field b kv =
     (if fst kv = ''job_id'' then Inr (b\<lparr>job_id := snd kv\<rparr>)
      else if fst kv = ''job_def'' then Inr (b\<lparr>job_def := snd kv\<rparr>)
      else if fst kv = ''status'' then Inr (b\<lparr>status := snd kv\<rparr>)
      else if fst kv = ''iters'' then Inr (b\<lparr>iters := snd kv\<rparr>)
      else if fst kv = ''client'' then Inr (b\<lparr>client := Some (snd kv)\<rparr>)
      else if fst kv = ''cache_key'' \<or> fst kv = ''self''
        then Inl (TypeError (''Batch.__init__() got multiple values for argument '' @
                    [CHR 0x27] @ fst kv @ [CHR 0x27]))
      else Inl (TypeError (''Batch.__init__() got an unexpected keyword argument '' @
                  [CHR 0x27] @ fst kv @ [CHR 0x27])))"

fun set_fields :: "batch \<Rightarrow> dict \<Rightarrow> error + batch" where
  "set_fields b [] = Inr b"
| "set_fields b (kv # kvs) =
     (case set_field b kv of Inl e \<Rightarrow> Inl e | Inr b' \<Rightarrow> set_fields b' kvs)"

definition Batch :: "string \<Rightarrow> dict \<Rightarrow> error + batch" where
  "Batch ck info =
     set_fields \<lparr>cache_key = ck, job_id = JNull, job_def = JNull, status = JNull,
                 iters = JInt 0, client = None\<rparr> info"

definition prefix :: "config \<Rightarrow> batch \<Rightarrow> string" where
  "prefix cfg b =
     (case S3_PREFIX cfg of None \<Rightarrow> cache_key b | Some p \<Rightarrow> p @ ''/'' @ cache_key b)"

definition result_key :: "config \<Rightarrow> batch \<Rightarrow> string" where
  "result_key cfg b = prefix cfg b @ ''/result.dump''"

text \<open>
  \<^verbatim>\<open>self.client.<method>(...)\<close>: the attribute is looked up on the client first; a
  client that came from the stored state has no such method.
\<close>

definition client_method :: "batch \<Rightarrow> string \<Rightarrow> unit io" where
  "client_method b name =
     (case client b of
        None \<Rightarrow> return ()
      | Some v \<Rightarrow> raise (AttributeError ([CHR 0x27] @ py_type_name v @
          [CHR 0x27] @ '' object has no attribute '' @ [CHR 0x27] @ name @ [CHR 0x27])))"

text \<open>botocore checks the parameters before it sends anything.\<close>

definition string_param :: "string \<Rightarrow> json \<Rightarrow> string io" where
  "string_param name v =
     (case v of
        JStr s \<Rightarrow> return s
      | _ \<Rightarrow> raise (ParamValidationError (invalid_type name v ''str'')))"

definition register_job_definition :: "config \<Rightarrow> string \<Rightarrow> dict \<Rightarrow> string io" where
  "register_job_definition cfg name props =
     (case validate_props cfg props of
        Some report \<Rightarrow> raise (ParamValidationError report)
      | None \<Rightarrow>
          bnd (request (BatchRegister name props)) (\<lambda>u w.
            let arn = arn_at w (length (trace w) - 1)
            in (Inr arn, w\<lparr>job_defs := (job_defs w)(arn \<mapsto>
                  \<lparr>jd_name = name, jd_props = props, jd_active = True\<rparr>)\<rparr>)))"

definition submit_job :: "string \<Rightarrow> string \<Rightarrow> string \<Rightarrow> string io" where
  "submit_job name queue jd =
     bnd (request (BatchSubmit name queue jd)) (\<lambda>u w.
       let jid = job_id_at w (length (trace w) - 1)
       in (Inr jid, w\<lparr>jobs := (jobs w)(jid \<mapsto>
             \<lparr>j_status = ''SUBMITTED'', j_attempts = None, j_statusReason = None\<rparr>)\<rparr>))"

definition describe_jobs :: "string \<Rightarrow> job list io" where
  "describe_jobs jid =
     bnd (request (BatchDescribe jid)) (\<lambda>u w.
       (Inr (case jobs w jid of None \<Rightarrow> [] | Some j \<Rightarrow> [j]), w))"

definition deregister_job_definition :: "string \<Rightarrow> unit io" where
  "deregister_job_definition arn =
     bnd (request (BatchDeregister arn)) (\<lambda>u w.
       (Inr (), w\<lparr>job_defs := (case job_defs w arn of
                     None \<Rightarrow> job_defs w
                   | Some jd \<Rightarrow> (job_defs w)(arn \<mapsto> jd\<lparr>jd_active := False\<rparr>))\<rparr>))"

text \<open>\<^verbatim>\<open>Batch._create_job_def\<close>\<close>

definition create_job_def :: "config \<Rightarrow> batch \<Rightarrow> string \<Rightarrow> dict \<Rightarrow> batch io" where
  "create_job_def cfg b name props =
     bnd (client_method b ''register_job_definition'') (\<lambda>u.
     bnd (register_job_definition cfg name props) (\<lambda>arn.
       return (b\<lparr>job_def := JStr arn\<rparr>)))"

text \<open>\<^verbatim>\<open>{**DFLT_PROP, **requirements}\<close>\<close>

definition container_props_of :: "json \<Rightarrow> error + dict" where
  "container_props_of requirements =
     (case requirements of
        JObj r \<Rightarrow> Inr (dict_merge DFLT_PROP r)
      | v \<Rightarrow> Inl (TypeError ([CHR 0x27] @ py_type_name v @ [CHR 0x27] @ '' object is not a mapping'')))"

text \<open>What a \<^verbatim>\<open>for x in v\<close> ranges over.\<close>

fun iterate :: "json \<Rightarrow> error + json list" where
  "iterate (JList xs) = Inr xs"
| "iterate (JObj d) = Inr (map (\<lambda>kv. JStr (fst kv)) d)"
| "iterate (JStr s) = Inr (map (\<lambda>c. JStr [c]) s)"
| "iterate v = Inl (TypeError ([CHR 0x27] @ py_type_name v @ [CHR 0x27] @ '' object is not iterable''))"

text \<open>\<^verbatim>\<open>any(x["type"] == "GPU" for x in xs)\<close>, stopping at the first hit.\<close>

fun any_gpu :: "json list \<Rightarrow> error + bool" where
  "any_gpu [] = Inr False"
| "any_gpu (JObj d # xs) =
     (case map_of d ''type'' of
        None \<Rightarrow> Inl (KeyError ''type'')
      | Some t \<Rightarrow> if t = JStr ''GPU'' then Inr True else any_gpu xs)"
| "any_gpu (JStr s # xs) =
     Inl (TypeError (''string indices must be integers, not '' @ [CHR 0x27] @ ''str'' @ [CHR 0x27]))"
| "any_gpu (JList ys # xs) = Inl (TypeError ''list indices must be integers or slices, not str'')"
| "any_gpu (v # xs) =
     Inl (TypeError ([CHR 0x27] @ py_type_name v @ [CHR 0x27] @ '' object is not subscriptable''))"

definition needs_gpu_of :: "dict \<Rightarrow> error + bool" where
  "needs_gpu_of container_props =
     (case iterate (case map_of container_props ''resourceRequirements'' of
                      None \<Rightarrow> JList [] | Some v \<Rightarrow> v) of
        Inl e \<Rightarrow> Inl e
      | Inr xs \<Rightarrow> any_gpu xs)"

text \<open>\<^verbatim>\<open>dedent(script).strip()\<close>\<close>

definition command_of :: "config \<Rightarrow> json \<Rightarrow> error + string" where
  "command_of cfg script =
     (case script of
        JStr s \<Rightarrow> Inr (dedent_strip cfg s)
      | v \<Rightarrow> Inl (TypeError (''expected string or bytes-like object, got '' @
                     [CHR 0x27] @ py_type_name v @ [CHR 0x27])))"

text \<open>\<^verbatim>\<open>os.environ[name]\<close>\<close>

definition environ :: "string \<Rightarrow> string option \<Rightarrow> error + string" where
  "environ name v = (case v of None \<Rightarrow> Inl (KeyError name) | Some s \<Rightarrow> Inr s)"

definition submit :: "config \<Rightarrow> batch \<Rightarrow> string \<Rightarrow> json \<Rightarrow> json \<Rightarrow> json \<Rightarrow> batch io" where
  "submit cfg b dump script img requirements =
     bnd (s3_put cfg dump (prefix cfg b @ ''/input.data'')) (\<lambda>dump_ps.
     bnd (lift (container_props_of requirements)) (\<lambda>container_props.
     bnd (lift (needs_gpu_of container_props)) (\<lambda>needs_gpu.
     bnd (lift (command_of cfg script)) (\<lambda>command.
     bnd (lift (environ ''BATCH_TASK_ROLE_ARN'' (BATCH_TASK_ROLE_ARN cfg))) (\<lambda>role.
     bnd (create_job_def cfg b (''fn-'' @ cache_key b)
            (dict_merge
               [(''image'', img),
                (''command'', JList [JStr ''python3'', JStr ''-c'', JStr command]),
                (''environment'', JList
                   [JObj [(''name'', JStr ''DML_INPUT''), (''value'', JStr dump_ps)],
                    JObj [(''name'', JStr ''DML_OUTPUT''),
                          (''value'', JStr (''s3://'' @ S3_BUCKET cfg @ ''/'' @ result_key cfg b))]]),
                (''jobRoleArn'', JStr role)]
               container_props)) (\<lambda>b1.
     bnd (client_method b1 ''submit_job'') (\<lambda>u.
     bnd (lift (if needs_gpu then environ ''GPU_QUEUE'' (GPU_QUEUE cfg)
                else environ ''CPU_QUEUE'' (CPU_QUEUE cfg))) (\<lambda>queue.
     bnd (string_param ''jobDefinition'' (job_def b1)) (\<lambda>jd.
     bnd (submit_job (''fn-'' @ cache_key b) queue jd) (\<lambda>jid.
       return (b1\<lparr>job_id := JStr jid, status := JStr ''submitted''\<rparr>)))))))))))"

text \<open>
  \<^verbatim>\<open>job.get("attempts", [{}])[-1].get("container", {}).get("reason", ...)\<close>: an empty list
  of attempts has no last element.
\<close>

definition failure_reason_of :: "job \<Rightarrow> error + string" where
  "failure_reason_of j =
     (case j_attempts j of
        None \<Rightarrow> Inr ''Unknown failure reason''
      | Some ats \<Rightarrow>
          if ats = [] then Inl (IndexError ''list index out of range'')
          else (case container (last ats) of
                  None \<Rightarrow> Inr ''Unknown failure reason''
                | Some c \<Rightarrow> (case reason c of
                               None \<Rightarrow> Inr ''Unknown failure reason''
                             | Some r \<Rightarrow> Inr r)))"

definition status_reason_of :: "job \<Rightarrow> string" where
  "status_reason_of j =
     (case j_statusReason j of
        None \<Rightarrow> ''No additional status reason provided.''
      | Some r \<Rightarrow> r)"

text \<open>\<^verbatim>\<open>Batch.update\<close>: the message, and the object with its new status.\<close>

definition update :: "batch \<Rightarrow> (string \<times> batch) io" where
  "update b =
     bnd (client_method b ''describe_jobs'') (\<lambda>u.
     bnd (string_param ''jobs[0]'' (job_id b)) (\<lambda>jid.
     bnd (describe_jobs jid) (\<lambda>js.
       case js of
         [] \<Rightarrow> raise (IndexError ''list index out of range'')
       | j # rest \<Rightarrow>
           if j_status j = SUCCESS_STATE
             then return (''Job '' @ jid @ '' succeeded.'', b\<lparr>status := JStr (j_status j)\<rparr>)
           else if j_status j = FAILED_STATE
             then bnd (lift (failure_reason_of j)) (\<lambda>failure_reason.
                    return (dumps_compact
                              [(''job_id'', jid),
                               (''cache_key'', cache_key b),
                               (''failure_reason'', failure_reason),
                               (''status_reason'', status_reason_of j)],
                            b\<lparr>status := JStr (j_status j)\<rparr>))
           else return (''Job '' @ jid @ '' is processing with status: '' @ j_status j,
                        b\<lparr>status := JStr (j_status j)\<rparr>))))"

text \<open>\<^verbatim>\<open>Batch.gc\<close>\<close>

definition gc :: "batch \<Rightarrow> unit io" where
  "gc b =
     try_except
       (bnd (client_method b ''deregister_job_definition'') (\<lambda>u.
        bnd (string_param ''jobDefinition'' (job_def b)) (\<lambda>arn.
          deregister_job_definition arn)))
       (\<lambda>e. case e of
               ClientError op code msg \<Rightarrow>
                 if code \<noteq> ''ClientException'' then raise e
                 else if contains msg ''DEREGISTERED'' then return ()
                 else raise e
             | _ \<Rightarrow> raise e)"

definition state_dict :: "batch \<Rightarrow> dict" where
  "state_dict b = [(''job_id'', job_id b), (''job_def'', job_def b), (''status'', status b)]"

section \<open>The handler\<close>

type_synonym response = dict

definition success_pipeline :: "config \<Rightarrow> dynamo \<Rightarrow> batch \<Rightarrow> response io" where
  "success_pipeline cfg d b =
     bnd (if iters b = JInt 0 then gc b else return ()) (\<lambda>u.
     bnd (s3_get (result_key cfg b)) (\<lambda>dump.
       case dump of
         None \<Rightarrow>
           (case iters b of
              JInt n \<Rightarrow>
                if n > MAX_ITERS
                then return [(''status'', JInt 422),
                             (''message'', JStr ''task failed to write output''),
                             (''dump'', JNull)]
                else bnd (put d (state_dict (b\<lparr>iters := JInt (n + 1)\<rparr>))) (\<lambda>ok.
                       return [(''status'', JInt 204),
                               (''message'', JStr ''waiting for task to write output''),
                               (''dump'', JNull)])
            | v \<Rightarrow> raise (TypeError ([CHR 0x27] @ ''>'' @ [CHR 0x27] @
                            '' not supported between instances of '' @
                            [CHR 0x27] @ py_type_name v @ [CHR 0x27] @ '' and '' @
                            [CHR 0x27] @ ''int'' @ [CHR 0x27])))
       | Some s \<Rightarrow>
           return [(''status'', JInt 200), (''message'', JStr ''Job finished''), (''dump'', JStr s)]))"

record event =
  ev_cache_key :: string
  ev_dump :: string
  ev_kwargs :: "(string \<times> json list) list"

text \<open>\<^verbatim>\<open>{k: v[-1] for k, v in event["kwargs"].items()}\<close>\<close>

fun last_values :: "(string \<times> json list) list \<Rightarrow> error + dict" where
  "last_values [] = Inr []"
| "last_values ((k, v) # kvs) =
     (if v = [] then Inl (IndexError ''list index out of range'')
      else (case last_values kvs of Inl e \<Rightarrow> Inl e | Inr d \<Rightarrow> Inr ((k, last v) # d)))"

fun first_unexpected :: "string list \<Rightarrow> string option" where
  "first_unexpected [] = None"
| "first_unexpected (k # ks) =
     (if k = ''script'' \<or> k = ''image'' \<or> k = ''requirements''
      then first_unexpected ks else Some k)"

text \<open>
  The binding of \<^verbatim>\<open>batch.submit(dump=event["dump"], **kw)\<close> to the parameters
  \<^verbatim>\<open>(self, dump, script, image, requirements)\<close>: a second \<^verbatim>\<open>dump\<close> is refused where
  the call is made, then the keywords are bound in their order, then what is missing is
  reported.
\<close>

definition submit_args :: "dict \<Rightarrow> error + json \<times> json \<times> json" where
  "submit_args kw =
     (if ''dump'' \<in> set (map fst kw)
      then Inl (TypeError (''entrypoint.Batch.submit() got multiple values for keyword argument '' @
                  [CHR 0x27] @ ''dump'' @ [CHR 0x27]))
      else
        (case first_unexpected (map fst kw) of
           Some k \<Rightarrow>
             if k = ''self''
             then Inl (TypeError (''Batch.submit() got multiple values for argument '' @
                         [CHR 0x27] @ k @ [CHR 0x27]))
             else Inl (TypeError (''Batch.submit() got an unexpected keyword argument '' @
                         [CHR 0x27] @ k @ [CHR 0x27]))
         | None \<Rightarrow>
             (case (map_of kw ''script'', map_of kw ''image'', map_of kw ''requirements'') of
                (Some s, Some i, Some r) \<Rightarrow> Inr (s, i, r)
              | (None, Some i, r) \<Rightarrow>
                  Inl (TypeError (''Batch.submit() missing 1 required positional argument: '' @
                         [CHR 0x27] @ ''script'' @ [CHR 0x27]))
              | (Some s, None, r) \<Rightarrow>
                  Inl (TypeError (''Batch.submit() missing 1 required positional argument: '' @
                         [CHR 0x27] @ ''image'' @ [CHR 0x27]))
              | (None, None, r) \<Rightarrow>
                  Inl (TypeError (''Batch.submit() missing 2 required positional arguments: '' @
                         [CHR 0x27] @ ''script'' @ [CHR 0x27] @ '' and '' @
                         [CHR 0x27] @ ''image'' @ [CHR 0x27]))
              | (Some s, Some i, None) \<Rightarrow>
                  Inl (TypeError (''Batch.submit() missing 1 required positional argument: '' @
                         [CHR 0x27] @ ''requirements'' @ [CHR 0x27])))))"

text \<open>\<^verbatim>\<open>info = dynamo.get() or {}\<close>, then \<^verbatim>\<open>**info\<close>, which takes a mapping only.\<close>

definition info_of :: "json option \<Rightarrow> error + dict" where
  "info_of r =
     (case r of
        None \<Rightarrow> Inr []
      | Some v \<Rightarrow>
          if truthy v
          then (case v of
                  JObj d \<Rightarrow> Inr d
                | _ \<Rightarrow> Inl (TypeError (''entrypoint.Batch() argument after ** must be a mapping, not '' @
                               py_type_name v)))
          else Inr [])"

definition is_pending :: "json \<Rightarrow> bool" where
  "is_pending v = (case v of JStr s \<Rightarrow> s \<in> set PENDING_STATES | _ \<Rightarrow> False)"

definition env_truthy :: "string option \<Rightarrow> bool" where
  "env_truthy v = (case v of None \<Rightarrow> False | Some s \<Rightarrow> s \<noteq> [])"

text \<open>
  The branch \<^verbatim>\<open>if batch.status is None:\<close> of \<^verbatim>\<open>handler\<close>: the job is submitted and the
  new state is written.
\<close>

definition submission :: "config \<Rightarrow> dynamo \<Rightarrow> event \<Rightarrow> batch \<Rightarrow> response io" where
  "submission cfg d ev b =
     bnd (lift (last_values (ev_kwargs ev))) (\<lambda>kw0.
     bnd (lift (submit_args
            (if ''requirements'' \<in> set (map fst kw0) then kw0
             else dict_set kw0 ''requirements'' (JObj [])))) (\<lambda>args.
     bnd (submit cfg b (ev_dump ev) (fst args) (fst (snd args)) (snd (snd args))) (\<lambda>b1.
     bnd (put d (state_dict b1)) (\<lambda>ok.
       return [(''status'', JInt 201),
               (''message'', JStr ''job created and submitted''),
               (''dump'', JNull)]))))"

text \<open>
  The rest of the \<^verbatim>\<open>try\<close> block, from \<^verbatim>\<open>msg = batch.update()\<close> on: the job is polled
  and the refreshed state is written.
\<close>

definition polling :: "config \<Rightarrow> dynamo \<Rightarrow> batch \<Rightarrow> response io" where
  "polling cfg d b =
     bnd (update b) (\<lambda>mb.
     bnd (put d (state_dict (snd mb))) (\<lambda>ok.
       if is_pending (status (snd mb)) then
         bnd (put d (state_dict (snd mb))) (\<lambda>ok2.
           return [(''status'', JInt 202), (''message'', JStr (fst mb)), (''dump'', JNull)])
       else if status (snd mb) = JStr FAILED_STATE then
         bnd (if env_truthy (DELETE_DYNAMO_ON_FAIL cfg) then delete d else return ()) (\<lambda>u.
           return [(''status'', JInt 400), (''message'', JStr (fst mb)), (''dump'', JNull)])
       else success_pipeline cfg d (snd mb)))"

text \<open>The body of the \<^verbatim>\<open>try\<close> block of \<^verbatim>\<open>handler\<close>.\<close>

definition handler_body :: "config \<Rightarrow> dynamo \<Rightarrow> event \<Rightarrow> response io" where
  "handler_body cfg d ev =
     bnd (get d) (\<lambda>r.
     bnd (lift (info_of r)) (\<lambda>info.
     bnd (lift (Batch (ev_cache_key ev) info)) (\<lambda>b.
       if status b = JNull then submission cfg d ev b
       else if status b = JStr SUCCESS_STATE then success_pipeline cfg d b
       else polling cfg d b)))"

text \<open>
  \<^verbatim>\<open>handler(event, context)\<close>. The run id is the \<^verbatim>\<open>uuid4().hex\<close> that the
  \<^verbatim>\<open>Dynamo\<close> object draws for the invocation.
\<close>

definition handler :: "config \<Rightarrow> string \<Rightarrow> event \<Rightarrow> response io" where
  "handler cfg rid ev =
     bnd (lock \<lparr>d_cache_key = ev_cache_key ev, run_id = rid\<rparr> None) (\<lambda>locked.
       if locked then
         try_finally
           (try_except (handler_body cfg \<lparr>d_cache_key = ev_cache_key ev, run_id = rid\<rparr> ev)
              (\<lambda>e. return [(''status'', JInt 400), (''message'', JStr (str_error e)), (''dump'', JNull)]))
           (unlock \<lparr>d_cache_key = ev_cache_key ev, run_id = rid\<rparr> None)
       else return [(''status'', JInt 204), (''message'', JStr ''Could not acquire job lock'')])"

section \<open>Observing an invocation\<close>

text \<open>The fields of the spec's JobRecord, read off the row of a cache key.\<close>

definition lock_owner :: "world \<Rightarrow> string \<Rightarrow> string option" where
  "lock_owner w k = (case table w k of None \<Rightarrow> None | Some r \<Rightarrow> lock_key r)"

definition lock_update_time :: "world \<Rightarrow> string \<Rightarrow> int option" where
  "lock_update_time w k = (case table w k of None \<Rightarrow> None | Some r \<Rightarrow> update_time r)"

definition stored :: "world \<Rightarrow> string \<Rightarrow> json option" where
  "stored w k = (case table w k of None \<Rightarrow> None | Some r \<Rightarrow> obj r)"

text \<open>
  The job state an invocation reconstructs from the stored record: the first three
  steps of \<open>handler_body\<close>, on what \<^verbatim>\<open>dynamo.get()\<close> returns.
\<close>

definition loaded :: "world \<Rightarrow> string \<Rightarrow> error + batch" where
  "loaded w k = (case info_of (stored w k) of Inl e \<Rightarrow> Inl e | Inr info \<Rightarrow> Batch k info)"

text \<open>The requests sent between two worlds of one history.\<close>

definition calls_since :: "world \<Rightarrow> world \<Rightarrow> call list" where
  "calls_since w w' = drop (length (trace w)) (trace w')"

fun is_unlock :: "call \<Rightarrow> bool" where
  "is_unlock (DbUnlock k owner) = True"
| "is_unlock c = False"

fun is_submit :: "call \<Rightarrow> bool" where
  "is_submit (BatchSubmit name queue jd) = True"
| "is_submit c = False"

fun is_deregister :: "call \<Rightarrow> bool" where
  "is_deregister (BatchDeregister arn) = True"
| "is_deregister c = False"

text \<open>A state blob written to the table has exactly the keys of \<open>state_dict\<close>.\<close>

fun put_has_state_keys :: "call \<Rightarrow> bool" where
  "put_has_state_keys (DbPut k owner (JObj d)) = (map fst d = [''job_id'', ''job_def'', ''status''])"
| "put_has_state_keys (DbPut k owner v) = False"
| "put_has_state_keys c = True"

subsection \<open>Concrete worlds\<close>

text \<open>
  A validation of \<^verbatim>\<open>containerProperties\<close> that checks the members the handler sets
  itself: the image and the role are strings, the defaults are integers.
\<close>

fun check_member :: "string \<times> json \<Rightarrow> string option" where
  "check_member (k, v) =
     (if k = ''image'' \<or> k = ''jobRoleArn''
      then (case v of JStr s \<Rightarrow> None
            | _ \<Rightarrow> Some (invalid_type (''containerProperties.'' @ k) v ''str''))
      else if k = ''vcpus'' \<or> k = ''memory''
      then (case v of JInt n \<Rightarrow> None
            | _ \<Rightarrow> Some (invalid_type (''containerProperties.'' @ k) v ''int''))
      else None)"

fun check_members :: "dict \<Rightarrow> string option" where
  "check_members [] = None"
| "check_members (kv # kvs) =
     (case check_member kv of Some report \<Rightarrow> Some report | None \<Rightarrow> check_members kvs)"

definition example_config :: config where
  "example_config =
     \<lparr>S3_BUCKET = ''bucket'', S3_PREFIX = None, DELETE_DYNAMO_ON_FAIL = None,
      BATCH_TASK_ROLE_ARN = Some ''role'', GPU_QUEUE = Some ''gpu'', CPU_QUEUE = Some ''cpu'',
      dedent_strip = (\<lambda>s. s), validate_props = check_members\<rparr>"

text \<open>Nothing stored, no job, no faults, the clock at 100.\<close>

definition new_world :: world where
  "new_world =
     \<lparr>clock = 100, table = Map.empty, s3 = Map.empty, job_defs = Map.empty, jobs = Map.empty,
      trace = [], faults = (\<lambda>n. None), arn_at = (\<lambda>n. ''arn''), job_id_at = (\<lambda>n. ''job'')\<rparr>"

definition example_event :: event where
  "example_event =
     \<lparr>ev_cache_key = ''k'', ev_dump = ''input'',
      ev_kwargs = [(''script'', [JStr ''print(1)'']), (''image'', [JStr ''python:3.12''])]\<rparr>"

text \<open>The row of \<open>''k''\<close> is locked by another invocation, two seconds ago.\<close>

definition contended_world :: world where
  "contended_world =
     new_world\<lparr>table := [''k'' \<mapsto> \<lparr>lock_key = Some ''other'', update_time = Some 98, obj = None\<rparr>]\<rparr>"

text \<open>
  The job of \<open>''k''\<close> has succeeded and the record says so; the job has not written
  its output.
\<close>

definition succeeded_world :: world where
  "succeeded_world =
     new_world\<lparr>
       table := [''k'' \<mapsto> \<lparr>lock_key = None, update_time = Some 90,
                  obj = Some (JObj [(''job_id'', JStr ''job''), (''job_def'', JStr ''arn''),
                                    (''status'', JStr ''SUCCEEDED'')])\<rparr>],
       jobs := [''job'' \<mapsto> \<lparr>j_status = ''SUCCEEDED'', j_attempts = None, j_statusReason = None\<rparr>],
       job_defs := [''arn'' \<mapsto> \<lparr>jd_name = ''fn-k'', jd_props = [], jd_active = True\<rparr>]\<rparr>"

text \<open>The job of \<open>''k''\<close> is submitted and the service has it as runnable.\<close>

definition pending_world :: world where
  "pending_world =
     new_world\<lparr>
       table := [''k'' \<mapsto> \<lparr>lock_key = None, update_time = Some 90,
                  obj = Some (JObj [(''job_id'', JStr ''job''), (''job_def'', JStr ''arn''),
                                    (''status'', JStr ''submitted'')])\<rparr>],
       jobs := [''job'' \<mapsto> \<lparr>j_status = ''RUNNABLE'', j_attempts = None, j_statusReason = None\<rparr>],
       job_defs := [''arn'' \<mapsto> \<lparr>jd_name = ''fn-k'', jd_props = [], jd_active = True\<rparr>]\<rparr>"

text \<open>As \<open>succeeded_world\<close>, with a record that also holds \<open>iters = 11\<close>.\<close>

definition exhausted_world :: world where
  "exhausted_world =
     succeeded_world\<lparr>
       table := [''k'' \<mapsto> \<lparr>lock_key = None, update_time = Some 90,
                  obj = Some (JObj [(''job_id'', JStr ''job''), (''job_def'', JStr ''arn''),
                                    (''status'', JStr ''SUCCEEDED''), (''iters'', JInt 11)])\<rparr>]\<rparr>"

text \<open>The first request to any service fails to connect.\<close>

definition unreachable_world :: world where
  "unreachable_world =
     new_world\<lparr>faults := (\<lambda>n. if n = 0 then Some (OtherException ''connect timeout'') else None)\<rparr>"

text \<open>
  DynamoDB throttles a request, and a world in which the \<open>n\<close>-th request fails with
  \<open>e\<close>.
\<close>

definition throttled :: "string \<Rightarrow> error" where
  "throttled op =
     ClientError op ''ProvisionedThroughputExceededException''
       ''The level of configured provisioned throughput for the table was exceeded.''"

definition failing_world :: "nat \<Rightarrow> error \<Rightarrow> world" where
  "failing_world n e = new_world\<lparr>faults := (\<lambda>i. if i = n then Some e else None)\<rparr>"

text \<open>DynamoDB refuses a conditional update.\<close>

definition refused :: error where
  "refused =
     ClientError ''UpdateItem'' ''ConditionalCheckFailedException''
       ''The conditional request failed''"

text \<open>The record of \<open>''k''\<close> holds a job identifier and nothing else.\<close>

definition orphan_world :: world where
  "orphan_world =
     new_world\<lparr>table := [''k'' \<mapsto> \<lparr>lock_key = None, update_time = Some 90,
                            obj = Some (JObj [(''job_id'', JStr ''job'')])\<rparr>]\<rparr>"

text \<open>The lease record is deleted when the job has failed.\<close>

definition cleanup_config :: config where
  "cleanup_config = example_config\<lparr>DELETE_DYNAMO_ON_FAIL := Some ''1''\<rparr>"

text \<open>The outside after the job of \<open>''k''\<close> was submitted and has failed.\<close>

definition failed_outside :: world where
  "failed_outside =
     new_world\<lparr>
       s3 := [''k/input.data'' \<mapsto> ''input''],
       jobs := [''job'' \<mapsto> \<lparr>j_status = ''FAILED'', j_attempts = None, j_statusReason = None\<rparr>],
       job_defs := [''arn'' \<mapsto> \<lparr>jd_name = ''fn-k'', jd_props = [], jd_active = True\<rparr>]\<rparr>"

text \<open>An event whose \<^verbatim>\<open>image\<close> parameter is bound to the empty list.\<close>

definition empty_arg_event :: event where
  "empty_arg_event =
     \<lparr>ev_cache_key = ''k'', ev_dump = ''input'',
      ev_kwargs = [(''script'', [JStr ''print(1)'']), (''image'', [])]\<rparr>"

section \<open>Histories\<close>

text \<open>
  A history of a table: invocations of the handler, and between them anything the
  outside does. \<open>Outside e\<close> puts the clock, the objects, the jobs, the job definitions
  and the services' choices as they are in \<open>e\<close>; only the handler writes the table.

  The invocations of a history run one after the other, each to its end, and the clock
  stands still while one runs. Two invocations at the same time, and a lease that times
  out while its invocation is still running, are not histories of this model; what a
  refused conditional write does to an invocation is a fault of \<open>faults\<close>.
\<close>

datatype step = Invoke string event | Outside world

fun run :: "config \<Rightarrow> step list \<Rightarrow> world \<Rightarrow> world" where
  "run cfg [] w = w"
| "run cfg (Invoke rid ev # xs) w = run cfg xs (snd (handler cfg rid ev w))"
| "run cfg (Outside e # xs) w = run cfg xs (e\<lparr>table := table w, trace := trace w\<rparr>)"

text \<open>The job of cache key \<open>k\<close> is submitted under the name \<^verbatim>\<open>fn-<k>\<close>.\<close>

fun submits_for :: "string \<Rightarrow> call \<Rightarrow> bool" where
  "submits_for k (BatchSubmit name queue jd) = (name = ''fn-'' @ k)"
| "submits_for k c = False"

text \<open>
  The requests of the submission branch: of any cache key, and of the cache key \<open>k\<close>,
  whose input is uploaded to \<^verbatim>\<open><prefix>/input.data\<close> and whose job definition and job
  have the name \<^verbatim>\<open>fn-<k>\<close>.
\<close>

fun is_submission :: "call \<Rightarrow> bool" where
  "is_submission (S3Put key body) = True"
| "is_submission (BatchRegister name props) = True"
| "is_submission (BatchSubmit name queue jd) = True"
| "is_submission c = False"

definition input_key :: "config \<Rightarrow> string \<Rightarrow> string" where
  "input_key cfg k =
     (case S3_PREFIX cfg of None \<Rightarrow> k | Some p \<Rightarrow> p @ ''/'' @ k) @ ''/input.data''"

fun submission_for :: "config \<Rightarrow> string \<Rightarrow> call \<Rightarrow> bool" where
  "submission_for cfg k (S3Put key body) = (key = input_key cfg k)"
| "submission_for cfg k (BatchRegister name props) = (name = ''fn-'' @ k)"
| "submission_for cfg k (BatchSubmit name queue jd) = (name = ''fn-'' @ k)"
| "submission_for cfg k c = False"

text \<open>
  Two worlds of one history: the later trace extends the earlier by requests that all
  satisfy \<open>P\<close>, and the stored states are related by \<open>S\<close>.
\<close>

definition evolves ::
  "(call \<Rightarrow> bool) \<Rightarrow> ((string \<Rightarrow> json option) \<Rightarrow> (string \<Rightarrow> json option) \<Rightarrow> bool) \<Rightarrow>
   world \<Rightarrow> world \<Rightarrow> bool" where
  "evolves P S w w' =
     ((\<exists>cs. trace w' = trace w @ cs \<and> list_all P cs) \<and> S (stored w) (stored w'))"

definition steps :: "(world \<Rightarrow> world \<Rightarrow> bool) \<Rightarrow> 'a io \<Rightarrow> bool" where
  "steps R m = (\<forall>w. R w (snd (m w)))"

text \<open>
  The requests other than a write of the state and those of the submission branch: the
  upload of the input, the registration of the job definition, the submission of the job.
\<close>

fun routine :: "call \<Rightarrow> bool" where
  "routine (DbPut k owner v) = False"
| "routine (S3Put key body) = False"
| "routine (BatchRegister name props) = False"
| "routine (BatchSubmit name queue jd) = False"
| "routine c = True"

definition fair ::
  "(call \<Rightarrow> bool) \<Rightarrow> ((string \<Rightarrow> json option) \<Rightarrow> (string \<Rightarrow> json option) \<Rightarrow> bool) \<Rightarrow> bool" where
  "fair P S = (reflp S \<and> transp S \<and> (\<forall>c. routine c \<longrightarrow> P c))"

definition put_ok ::
  "(call \<Rightarrow> bool) \<Rightarrow> ((string \<Rightarrow> json option) \<Rightarrow> (string \<Rightarrow> json option) \<Rightarrow> bool) \<Rightarrow>
   dynamo \<Rightarrow> dict \<Rightarrow> bool" where
  "put_ok P S d ob =
     (P (DbPut (d_cache_key d) (run_id d) (JObj ob)) \<and>
      (\<forall>f. S f (f(d_cache_key d := Some (JObj ob)))))"

definition delete_ok ::
  "((string \<Rightarrow> json option) \<Rightarrow> (string \<Rightarrow> json option) \<Rightarrow> bool) \<Rightarrow> dynamo \<Rightarrow> bool" where
  "delete_ok S d = (\<forall>f. S f (f(d_cache_key d := None)))"

text \<open>
  The stored state of \<open>k\<close> is as it was, or it is a state written by \<open>state_dict\<close>
  with a job identifier and a status.
\<close>

definition keeps_record :: "string \<Rightarrow> (string \<Rightarrow> json option) \<Rightarrow> (string \<Rightarrow> json option) \<Rightarrow> bool" where
  "keeps_record k f f' =
     (f' k = f k \<or>
      (\<exists>b. f' k = Some (JObj (state_dict b)) \<and> job_id b \<noteq> JNull \<and> status b \<noteq> JNull))"

text \<open>
  The record of \<open>k\<close> tells of a submitted job: what an invocation loads from it has a
  job identifier and a status.
\<close>

definition recorded :: "world \<Rightarrow> string \<Rightarrow> bool" where
  "recorded w k =
     (case loaded w k of Inl e \<Rightarrow> False | Inr b \<Rightarrow> job_id b \<noteq> JNull \<and> status b \<noteq> JNull)"

text \<open>
  In a history, every invocation that sends a \<^verbatim>\<open>submit_job\<close> request for \<open>k\<close> leaves
  the record of \<open>k\<close> telling of a submitted job.
\<close>

fun submissions_recorded :: "config \<Rightarrow> string \<Rightarrow> step list \<Rightarrow> world \<Rightarrow> bool" where
  "submissions_recorded cfg k [] w = True"
| "submissions_recorded cfg k (Invoke rid ev # xs) w =
     ((filter (submits_for k) (calls_since w (snd (handler cfg rid ev w))) = [] \<or>
       recorded (snd (handler cfg rid ev w)) k) \<and>
      submissions_recorded cfg k xs (snd (handler cfg rid ev w)))"
| "submissions_recorded cfg k (Outside e # xs) w =
     submissions_recorded cfg k xs (e\<lparr>table := table w, trace := trace w\<rparr>)"

text \<open>The later trace extends the earlier by requests of which at most one submits a job.\<close>

definition once :: "world \<Rightarrow> world \<Rightarrow> bool" where
  "once w w' = (\<exists>cs. trace w' = trace w @ cs \<and> length (filter is_submit cs) \<le> 1)"

text \<open>The services will answer in the later world as in the earlier.\<close>

definition same_faults :: "world \<Rightarrow> world \<Rightarrow> bool" where
  "same_faults w w' = (faults w' = faults w)"

text \<open>Every request of a history is answered: no world of the outside has a fault.\<close>

fun answered :: "step list \<Rightarrow> bool" where
  "answered [] = True"
| "answered (Invoke rid ev # xs) = answered xs"
| "answered (Outside e # xs) = ((\<forall>n. faults e n = None) \<and> answered xs)"

text \<open>No stored state, or one with exactly the keys of \<open>state_dict\<close>.\<close>

fun written_by_engine :: "json option \<Rightarrow> bool" where
  "written_by_engine None = True"
| "written_by_engine (Some (JObj d)) = (map fst d = [''job_id'', ''job_def'', ''status''])"
| "written_by_engine (Some v) = False"

definition only_engine_writes :: "(string \<Rightarrow> json option) \<Rightarrow> (string \<Rightarrow> json option) \<Rightarrow> bool" where
  "only_engine_writes f f' = (\<forall>k. f' k = f k \<or> written_by_engine (f' k))"

section \<open>Unfolding the model\<close>

lemmas io_defs = Let_def bnd_def return_def raise_def lift_def try_except_def try_finally_def
  request_def now_def

lemmas dynamo_defs = lock_def unlock_def put_def get_def delete_def dynamo_update_def
  update_item_def get_item_def delete_item_def key_or_def lock_condition_def owner_condition_def
  empty_row_def TIMEOUT_def

lemmas s3_defs = s3_get_def s3_put_def head_object_def get_object_def put_object_def

lemmas batch_defs = Batch_def set_field_def prefix_def result_key_def client_method_def
  string_param_def register_job_definition_def submit_job_def describe_jobs_def
  deregister_job_definition_def create_job_def_def container_props_of_def needs_gpu_of_def
  command_of_def environ_def submit_def failure_reason_of_def status_reason_of_def update_def
  gc_def state_dict_def dict_merge_def DFLT_PROP_def

lemmas handler_defs = success_pipeline_def submit_args_def info_of_def is_pending_def
  env_truthy_def submission_def polling_def handler_body_def handler_def MAX_ITERS_def PENDING_STATES_def SUCCESS_STATE_def
  FAILED_STATE_def

lemmas observer_defs = lock_owner_def lock_update_time_def stored_def loaded_def calls_since_def

lemmas example_defs = example_config_def new_world_def example_event_def contended_world_def
  succeeded_world_def pending_world_def exhausted_world_def unreachable_world_def empty_arg_event_def
  cleanup_config_def failed_outside_def throttled_def failing_world_def refused_def
  orphan_world_def

section \<open>The lease\<close>

text \<open>What \<open>lock\<close> does, by the outcome of its one request.\<close>

lemma lock_unfold:
  "lock d key w =
     (case faults w (length (trace w)) of
        Some e \<Rightarrow>
          (case e of
             ClientError op code msg \<Rightarrow>
               if code = ''ConditionalCheckFailedException''
               then (Inr False, w\<lparr>trace := trace w @ [DbLock (key_or key (d_cache_key d)) (run_id d)]\<rparr>)
               else (Inl e, w\<lparr>trace := trace w @ [DbLock (key_or key (d_cache_key d)) (run_id d)]\<rparr>)
           | _ \<Rightarrow> (Inl e, w\<lparr>trace := trace w @ [DbLock (key_or key (d_cache_key d)) (run_id d)]\<rparr>))
      | None \<Rightarrow>
          if lock_condition (run_id d) (clock w - TIMEOUT) (table w (key_or key (d_cache_key d)))
          then (Inr True,
                w\<lparr>trace := trace w @ [DbLock (key_or key (d_cache_key d)) (run_id d)],
                  table := (table w)(key_or key (d_cache_key d) \<mapsto>
                    (case table w (key_or key (d_cache_key d)) of None \<Rightarrow> empty_row | Some r \<Rightarrow> r)
                      \<lparr>lock_key := Some (run_id d), update_time := Some (clock w)\<rparr>)\<rparr>)
          else (Inr False, w\<lparr>trace := trace w @ [DbLock (key_or key (d_cache_key d)) (run_id d)]\<rparr>))"
  by (simp add: lock_def dynamo_update_def update_item_def io_defs split: option.splits error.splits)

lemma unlock_unfold:
  "unlock d key w =
     (case faults w (length (trace w)) of
        Some e \<Rightarrow>
          (case e of
             ClientError op code msg \<Rightarrow>
               if code = ''ConditionalCheckFailedException''
               then (Inr False, w\<lparr>trace := trace w @ [DbUnlock (key_or key (d_cache_key d)) (run_id d)]\<rparr>)
               else (Inl e, w\<lparr>trace := trace w @ [DbUnlock (key_or key (d_cache_key d)) (run_id d)]\<rparr>)
           | _ \<Rightarrow> (Inl e, w\<lparr>trace := trace w @ [DbUnlock (key_or key (d_cache_key d)) (run_id d)]\<rparr>))
      | None \<Rightarrow>
          if owner_condition (run_id d) (table w (key_or key (d_cache_key d)))
          then (Inr True,
                w\<lparr>trace := trace w @ [DbUnlock (key_or key (d_cache_key d)) (run_id d)],
                  table := (table w)(key_or key (d_cache_key d) \<mapsto>
                    (case table w (key_or key (d_cache_key d)) of None \<Rightarrow> empty_row | Some r \<Rightarrow> r)
                      \<lparr>lock_key := None, update_time := Some (clock w)\<rparr>)\<rparr>)
          else (Inr False, w\<lparr>trace := trace w @ [DbUnlock (key_or key (d_cache_key d)) (run_id d)]\<rparr>))"
  by (simp add: unlock_def dynamo_update_def update_item_def io_defs split: option.splits error.splits)

lemma put_unfold:
  "put d ob w =
     (case faults w (length (trace w)) of
        Some e \<Rightarrow>
          (case e of
             ClientError op code msg \<Rightarrow>
               if code = ''ConditionalCheckFailedException''
               then (Inr False, w\<lparr>trace := trace w @ [DbPut (d_cache_key d) (run_id d) (JObj ob)]\<rparr>)
               else (Inl e, w\<lparr>trace := trace w @ [DbPut (d_cache_key d) (run_id d) (JObj ob)]\<rparr>)
           | _ \<Rightarrow> (Inl e, w\<lparr>trace := trace w @ [DbPut (d_cache_key d) (run_id d) (JObj ob)]\<rparr>))
      | None \<Rightarrow>
          if lock_condition (run_id d) (clock w - TIMEOUT) (table w (d_cache_key d))
          then (Inr True,
                w\<lparr>trace := trace w @ [DbPut (d_cache_key d) (run_id d) (JObj ob)],
                  table := (table w)(d_cache_key d \<mapsto>
                    (case table w (d_cache_key d) of None \<Rightarrow> empty_row | Some r \<Rightarrow> r)
                      \<lparr>lock_key := Some (run_id d), update_time := Some (clock w),
                        obj := Some (JObj ob)\<rparr>)\<rparr>)
          else (Inr False, w\<lparr>trace := trace w @ [DbPut (d_cache_key d) (run_id d) (JObj ob)]\<rparr>))"
  by (simp add: put_def dynamo_update_def update_item_def key_or_def io_defs
      split: option.splits error.splits)

lemma get_unfold:
  "get d w =
     (case faults w (length (trace w)) of
        Some e \<Rightarrow> (Inl e, w\<lparr>trace := trace w @ [DbGet (d_cache_key d)]\<rparr>)
      | None \<Rightarrow>
          (case table w (d_cache_key d) of
             None \<Rightarrow> (Inl (KeyError ''Item''), w\<lparr>trace := trace w @ [DbGet (d_cache_key d)]\<rparr>)
           | Some r \<Rightarrow> (Inr (obj r), w\<lparr>trace := trace w @ [DbGet (d_cache_key d)]\<rparr>)))"
  by (simp add: get_def get_item_def io_defs split: option.splits)

lemma unlock_trace:
  "trace (snd (unlock d key w)) = trace w @ [DbUnlock (key_or key (d_cache_key d)) (run_id d)]"
  by (simp add: unlock_unfold split: option.splits error.splits)

text \<open>
  C3. When the request of \<open>lock\<close> gets through to the table, the call returns true exactly
  when the row has no lock owner, or the owner is the caller, or the recorded update time
  is older than now minus 5 seconds. On true the row's owner is the caller and its update
  time is now, with the stored state and every other row as they were; on false the table
  is unchanged.
\<close>

theorem lock_succeeds_iff:
  assumes "faults w (length (trace w)) = None" and "k = key_or key (d_cache_key d)"
  shows "fst (lock d key w) =
           Inr (lock_owner w k = None \<or> lock_owner w k = Some (run_id d) \<or>
                (\<exists>t. lock_update_time w k = Some t \<and> t < clock w - 5))
       \<and> (fst (lock d key w) = Inr True \<longrightarrow>
            lock_owner (snd (lock d key w)) k = Some (run_id d) \<and>
            lock_update_time (snd (lock d key w)) k = Some (clock w) \<and>
            stored (snd (lock d key w)) = stored w \<and>
            (\<forall>k'. k' \<noteq> k \<longrightarrow> table (snd (lock d key w)) k' = table w k'))
       \<and> (fst (lock d key w) = Inr False \<longrightarrow> table (snd (lock d key w)) = table w)"
  using assms
  by (auto simp add: lock_unfold lock_condition_def lock_owner_def lock_update_time_def
      stored_def TIMEOUT_def empty_row_def fun_eq_iff split: option.splits)

theorem lock_succeeds_iff_witness:
  "faults new_world (length (trace new_world)) = None
   \<and> fst (lock \<lparr>d_cache_key = ''k'', run_id = ''r1''\<rparr> None new_world) = Inr True
   \<and> lock_owner (snd (lock \<lparr>d_cache_key = ''k'', run_id = ''r1''\<rparr> None new_world)) ''k'' = Some ''r1''
   \<and> lock_update_time (snd (lock \<lparr>d_cache_key = ''k'', run_id = ''r1''\<rparr> None new_world)) ''k'' = Some 100
   \<and> faults contended_world (length (trace contended_world)) = None
   \<and> lock_owner contended_world ''k'' = Some ''other''
   \<and> lock_update_time contended_world ''k'' = Some 98
   \<and> fst (lock \<lparr>d_cache_key = ''k'', run_id = ''r1''\<rparr> None contended_world) = Inr False
   \<and> table (snd (lock \<lparr>d_cache_key = ''k'', run_id = ''r1''\<rparr> None contended_world)) = table contended_world"
  using lock_succeeds_iff [of new_world "''k''" None "\<lparr>d_cache_key = ''k'', run_id = ''r1''\<rparr>"]
    lock_succeeds_iff [of contended_world "''k''" None "\<lparr>d_cache_key = ''k'', run_id = ''r1''\<rparr>"]
  by (simp add: example_defs observer_defs key_or_def)

section \<open>Lock contention\<close>

text \<open>
  C7. With the row of \<open>''k''\<close> locked by another live owner, the handler sends the one
  refused lock request and returns status 204 and the message, leaving the world as it was.
  The response it returns has no \<open>dump\<close> entry at all, where every other response of the
  handler carries \<open>dump\<close>.
\<close>

theorem lock_contention_response_has_no_dump:
  "handler example_config ''r1'' example_event contended_world =
     (Inr [(''status'', JInt 204), (''message'', JStr ''Could not acquire job lock'')],
      contended_world\<lparr>trace := [DbLock ''k'' ''r1'']\<rparr>)
   \<and> map_of [(''status'', JInt 204), (''message'', JStr ''Could not acquire job lock'')] ''dump'' = None"
  by (simp add: handler_def io_defs dynamo_defs example_defs)

section \<open>Release of the lease and unexpected errors\<close>

text \<open>
  C5. The handler calls \<open>lock\<close> before its \<^verbatim>\<open>try\<close> block and \<open>unlock\<close> in the
  \<^verbatim>\<open>finally\<close> clause, so an error of either request is not caught by
  \<^verbatim>\<open>except Exception\<close>. When DynamoDB throttles the \<open>unlock\<close> request, the error
  reaches the caller in place of the response (the 400 of an event with an empty parameter
  list, or the 201 of a job just submitted) and the row keeps the run as its lock owner.
  When it throttles the \<open>lock\<close> request, the error reaches the caller too. The same
  error at the \<open>get\<close> request, inside the block, is converted into the response with
  status 400 and its description, and the lock is released.
\<close>

theorem unexpected_error_escapes:
  "fst (handler example_config ''r1'' empty_arg_event (failing_world 2 (throttled ''UpdateItem''))) =
     Inl (throttled ''UpdateItem'')
   \<and> trace (snd (handler example_config ''r1'' empty_arg_event
                   (failing_world 2 (throttled ''UpdateItem'')))) =
       [DbLock ''k'' ''r1'', DbGet ''k'', DbUnlock ''k'' ''r1'']
   \<and> lock_owner (snd (handler example_config ''r1'' empty_arg_event
                        (failing_world 2 (throttled ''UpdateItem'')))) ''k'' = Some ''r1''
   \<and> fst (handler example_config ''r1'' example_event (failing_world 6 (throttled ''UpdateItem''))) =
       Inl (throttled ''UpdateItem'')
   \<and> trace (snd (handler example_config ''r1'' example_event
                   (failing_world 6 (throttled ''UpdateItem'')))) =
       [DbLock ''k'' ''r1'', DbGet ''k'', S3Put ''k/input.data'' ''input'',
        BatchRegister ''fn-k''
          [(''image'', JStr ''python:3.12''),
           (''command'', JList [JStr ''python3'', JStr ''-c'', JStr ''print(1)'']),
           (''environment'', JList
              [JObj [(''name'', JStr ''DML_INPUT''), (''value'', JStr ''s3://bucket/k/input.data'')],
               JObj [(''name'', JStr ''DML_OUTPUT''), (''value'', JStr ''s3://bucket/k/result.dump'')]]),
           (''jobRoleArn'', JStr ''role''), (''vcpus'', JInt 1), (''memory'', JInt 512)],
        BatchSubmit ''fn-k'' ''cpu'' ''arn'',
        DbPut ''k'' ''r1''
          (JObj [(''job_id'', JStr ''job''), (''job_def'', JStr ''arn''), (''status'', JStr ''submitted'')]),
        DbUnlock ''k'' ''r1'']
   \<and> lock_owner (snd (handler example_config ''r1'' example_event
                        (failing_world 6 (throttled ''UpdateItem'')))) ''k'' = Some ''r1''
   \<and> fst (handler example_config ''r1'' example_event (failing_world 0 (throttled ''UpdateItem''))) =
       Inl (throttled ''UpdateItem'')
   \<and> trace (snd (handler example_config ''r1'' example_event
                   (failing_world 0 (throttled ''UpdateItem'')))) = [DbLock ''k'' ''r1'']
   \<and> fst (handler example_config ''r1'' example_event (failing_world 1 (throttled ''GetItem''))) =
       Inr [(''status'', JInt 400), (''message'', JStr (str_error (throttled ''GetItem''))),
            (''dump'', JNull)]
   \<and> trace (snd (handler example_config ''r1'' example_event
                   (failing_world 1 (throttled ''GetItem'')))) =
       [DbLock ''k'' ''r1'', DbGet ''k'', DbUnlock ''k'' ''r1'']
   \<and> lock_owner (snd (handler example_config ''r1'' example_event
                        (failing_world 1 (throttled ''GetItem'')))) ''k'' = None"
  by (simp add: io_defs dynamo_defs s3_defs batch_defs handler_defs observer_defs example_defs)

section \<open>The retry budget\<close>

lemma success_pipeline_exhausted:
  assumes "iters b = JInt n" and "10 < n"
      and "s3 w (result_key cfg b) = None"
      and "faults w (length (trace w)) = None"
  shows "success_pipeline cfg d b w =
           (Inr [(''status'', JInt 422), (''message'', JStr ''task failed to write output''),
                 (''dump'', JNull)],
            w\<lparr>trace := trace w @ [S3Head (result_key cfg b)]\<rparr>)"
  using assms by (simp add: success_pipeline_def io_defs s3_defs MAX_ITERS_def)

text \<open>
  C6. The result-retrieval sub-protocol, entered with an iteration count above 10 and no
  output object, sends the one \<^verbatim>\<open>head_object\<close> request and returns status 422 with the
  message \<open>task failed to write output\<close> and a null dump; the world is otherwise as it
  was: no write to the table, no deletion, no new count. An invocation that loads such a
  record with status \<open>SUCCEEDED\<close> returns that response, having sent the lock, get, head
  and unlock requests only; the row keeps its stored state and loses its lock owner.
\<close>

theorem output_never_written:
  assumes "iters b = JInt n" and "10 < n"
  shows "(s3 w (result_key cfg b) = None \<and> faults w (length (trace w)) = None \<longrightarrow>
            success_pipeline cfg d b w =
              (Inr [(''status'', JInt 422), (''message'', JStr ''task failed to write output''),
                    (''dump'', JNull)],
               w\<lparr>trace := trace w @ [S3Head (result_key cfg b)]\<rparr>))
       \<and> (lock_condition rid (clock w - TIMEOUT) (table w (ev_cache_key ev)) \<and>
          (\<forall>i. faults w i = None) \<and> table w (ev_cache_key ev) = Some r \<and>
          loaded w (ev_cache_key ev) = Inr b \<and> status b = JStr ''SUCCEEDED'' \<and>
          s3 w (result_key cfg b) = None \<longrightarrow>
            handler cfg rid ev w =
              (Inr [(''status'', JInt 422), (''message'', JStr ''task failed to write output''),
                    (''dump'', JNull)],
               w\<lparr>trace := trace w @
                    [DbLock (ev_cache_key ev) rid, DbGet (ev_cache_key ev),
                     S3Head (result_key cfg b), DbUnlock (ev_cache_key ev) rid],
                 table := (table w)(ev_cache_key ev \<mapsto>
                    r\<lparr>lock_key := None, update_time := Some (clock w)\<rparr>)\<rparr>))"
proof (intro conjI impI)
  assume "s3 w (result_key cfg b) = None \<and> faults w (length (trace w)) = None"
  then show "success_pipeline cfg d b w =
              (Inr [(''status'', JInt 422), (''message'', JStr ''task failed to write output''),
                    (''dump'', JNull)],
               w\<lparr>trace := trace w @ [S3Head (result_key cfg b)]\<rparr>)"
    using assms by (simp add: success_pipeline_exhausted)
next
  assume a: "lock_condition rid (clock w - TIMEOUT) (table w (ev_cache_key ev)) \<and>
          (\<forall>i. faults w i = None) \<and> table w (ev_cache_key ev) = Some r \<and>
          loaded w (ev_cache_key ev) = Inr b \<and> status b = JStr ''SUCCEEDED'' \<and>
          s3 w (result_key cfg b) = None"
  then have l0: "lock_condition rid (clock w - TIMEOUT) (table w (ev_cache_key ev))"
    and nf: "\<forall>i. faults w i = None" and t: "table w (ev_cache_key ev) = Some r"
    and ld: "loaded w (ev_cache_key ev) = Inr b" and st: "status b = JStr ''SUCCEEDED''"
    and o: "s3 w (result_key cfg b) = None"
    by blast+
  have l: "lock_condition rid (clock w - TIMEOUT) (Some r)"
    using l0 t by simp
  obtain info where info: "info_of (obj r) = Inr info"
    and b: "Batch (ev_cache_key ev) info = Inr b"
    using ld t by (auto simp add: loaded_def stored_def split: sum.splits)
  show "handler cfg rid ev w =
              (Inr [(''status'', JInt 422), (''message'', JStr ''task failed to write output''),
                    (''dump'', JNull)],
               w\<lparr>trace := trace w @
                    [DbLock (ev_cache_key ev) rid, DbGet (ev_cache_key ev),
                     S3Head (result_key cfg b), DbUnlock (ev_cache_key ev) rid],
                 table := (table w)(ev_cache_key ev \<mapsto>
                    r\<lparr>lock_key := None, update_time := Some (clock w)\<rparr>)\<rparr>)"
    using l nf t st o info b assms
    by (simp add: handler_def handler_body_def lock_unfold get_unfold unlock_unfold
        success_pipeline_exhausted bnd_def return_def lift_def try_except_def try_finally_def
        SUCCESS_STATE_def owner_condition_def key_or_def)
qed

theorem output_never_written_witness:
  "iters \<lparr>cache_key = ''k'', job_id = JStr ''job'', job_def = JStr ''arn'',
           status = JStr ''SUCCEEDED'', iters = JInt 11, client = None\<rparr> = JInt 11
   \<and> (10::int) < 11
   \<and> s3 exhausted_world ''k/result.dump'' = None
   \<and> faults exhausted_world (length (trace exhausted_world)) = None
   \<and> success_pipeline example_config \<lparr>d_cache_key = ''k'', run_id = ''r1''\<rparr>
        \<lparr>cache_key = ''k'', job_id = JStr ''job'', job_def = JStr ''arn'',
         status = JStr ''SUCCEEDED'', iters = JInt 11, client = None\<rparr> exhausted_world =
       (Inr [(''status'', JInt 422), (''message'', JStr ''task failed to write output''),
             (''dump'', JNull)],
        exhausted_world\<lparr>trace := [S3Head ''k/result.dump'']\<rparr>)
   \<and> loaded exhausted_world ''k'' =
       Inr \<lparr>cache_key = ''k'', job_id = JStr ''job'', job_def = JStr ''arn'',
            status = JStr ''SUCCEEDED'', iters = JInt 11, client = None\<rparr>
   \<and> fst (handler example_config ''r1'' example_event exhausted_world) =
       Inr [(''status'', JInt 422), (''message'', JStr ''task failed to write output''),
            (''dump'', JNull)]
   \<and> calls_since exhausted_world (snd (handler example_config ''r1'' example_event exhausted_world)) =
       [DbLock ''k'' ''r1'', DbGet ''k'', S3Head ''k/result.dump'', DbUnlock ''k'' ''r1'']
   \<and> stored (snd (handler example_config ''r1'' example_event exhausted_world)) ''k'' =
       stored exhausted_world ''k''"
  using output_never_written [of
      "\<lparr>cache_key = ''k'', job_id = JStr ''job'', job_def = JStr ''arn'',
        status = JStr ''SUCCEEDED'', iters = JInt 11, client = None\<rparr>"
      11 exhausted_world example_config "\<lparr>d_cache_key = ''k'', run_id = ''r1''\<rparr>"
      "''r1''" example_event
      "\<lparr>lock_key = None, update_time = Some 90,
        obj = Some (JObj [(''job_id'', JStr ''job''), (''job_def'', JStr ''arn''),
                          (''status'', JStr ''SUCCEEDED''), (''iters'', JInt 11)])\<rparr>"]
  by (simp add: io_defs dynamo_defs s3_defs batch_defs handler_defs observer_defs example_defs)

section \<open>Polling a job that is still running\<close>

lemma pending_not_terminal:
  "s \<in> set PENDING_STATES \<Longrightarrow> s \<noteq> SUCCESS_STATE \<and> s \<noteq> FAILED_STATE"
  by (auto simp add: PENDING_STATES_def SUCCESS_STATE_def FAILED_STATE_def)

lemma update_pending:
  assumes "client b = None" and "job_id b = JStr jid" and "jobs w jid = Some j"
      and "j_status j \<in> set PENDING_STATES" and "faults w (length (trace w)) = None"
  shows "update b w =
           (Inr (''Job '' @ jid @ '' is processing with status: '' @ j_status j,
                 b\<lparr>status := JStr (j_status j)\<rparr>),
            w\<lparr>trace := trace w @ [BatchDescribe jid]\<rparr>)"
  using assms pending_not_terminal [of "j_status j"]
  by (simp add: update_def client_method_def string_param_def describe_jobs_def io_defs)

text \<open>
  C8. The invocation acquires the lock, no request fails, and the stored record gives a
  job identifier and a status that is neither absent nor \<open>SUCCEEDED\<close>. If the service
  reports one of the pending states, the handler writes the record with the reported
  status (twice), releases the lock, and returns status 202, the message
  \<open>Job <id> is processing with status: <status>\<close> and a null dump.
\<close>

theorem still_processing:
  assumes "lock_condition rid (clock w - TIMEOUT) (table w (ev_cache_key ev))"
      and "\<forall>i. faults w i = None"
      and "table w (ev_cache_key ev) = Some r" and "obj r = Some (JObj info)" and "info \<noteq> []"
      and "Batch (ev_cache_key ev) info = Inr b"
      and "job_id b = JStr jid" and "status b \<noteq> JNull" and "status b \<noteq> JStr ''SUCCEEDED''"
      and "client b = None"
      and "jobs w jid = Some j" and "j_status j \<in> set PENDING_STATES"
  shows "handler cfg rid ev w =
           (Inr [(''status'', JInt 202),
                 (''message'', JStr (''Job '' @ jid @ '' is processing with status: '' @ j_status j)),
                 (''dump'', JNull)],
            w\<lparr>trace := trace w @
                 [DbLock (ev_cache_key ev) rid, DbGet (ev_cache_key ev), BatchDescribe jid,
                  DbPut (ev_cache_key ev) rid
                    (JObj [(''job_id'', JStr jid), (''job_def'', job_def b), (''status'', JStr (j_status j))]),
                  DbPut (ev_cache_key ev) rid
                    (JObj [(''job_id'', JStr jid), (''job_def'', job_def b), (''status'', JStr (j_status j))]),
                  DbUnlock (ev_cache_key ev) rid],
              table := (table w)(ev_cache_key ev \<mapsto>
                 r\<lparr>obj := Some (JObj [(''job_id'', JStr jid), (''job_def'', job_def b),
                                      (''status'', JStr (j_status j))]),
                   lock_key := None, update_time := Some (clock w)\<rparr>)\<rparr>)"
  using assms pending_not_terminal [of "j_status j"]
  by (simp add: handler_def handler_body_def polling_def lock_unfold get_unfold put_unfold
       unlock_unfold update_pending bnd_def return_def lift_def try_except_def try_finally_def info_of_def
       is_pending_def state_dict_def SUCCESS_STATE_def lock_condition_def owner_condition_def
       key_or_def)

theorem still_processing_witness:
  "lock_condition ''r1'' (clock pending_world - TIMEOUT) (table pending_world ''k'')
   \<and> stored pending_world ''k'' =
       Some (JObj [(''job_id'', JStr ''job''), (''job_def'', JStr ''arn''), (''status'', JStr ''submitted'')])
   \<and> Batch ''k'' [(''job_id'', JStr ''job''), (''job_def'', JStr ''arn''), (''status'', JStr ''submitted'')] =
       Inr \<lparr>cache_key = ''k'', job_id = JStr ''job'', job_def = JStr ''arn'',
            status = JStr ''submitted'', iters = JInt 0, client = None\<rparr>
   \<and> ''RUNNABLE'' \<in> set PENDING_STATES
   \<and> fst (handler example_config ''r1'' example_event pending_world) =
       Inr [(''status'', JInt 202),
            (''message'', JStr ''Job job is processing with status: RUNNABLE''),
            (''dump'', JNull)]
   \<and> stored (snd (handler example_config ''r1'' example_event pending_world)) ''k'' =
       Some (JObj [(''job_id'', JStr ''job''), (''job_def'', JStr ''arn''), (''status'', JStr ''RUNNABLE'')])"
  using still_processing [of "''r1''" pending_world example_event
      "\<lparr>lock_key = None, update_time = Some 90,
        obj = Some (JObj [(''job_id'', JStr ''job''), (''job_def'', JStr ''arn''),
                          (''status'', JStr ''submitted'')])\<rparr>"
      "[(''job_id'', JStr ''job''), (''job_def'', JStr ''arn''), (''status'', JStr ''submitted'')]"
      "\<lparr>cache_key = ''k'', job_id = JStr ''job'', job_def = JStr ''arn'',
        status = JStr ''submitted'', iters = JInt 0, client = None\<rparr>"
      "''job''" "\<lparr>j_status = ''RUNNABLE'', j_attempts = None, j_statusReason = None\<rparr>"
      example_config]
  by (simp add: pending_world_def example_defs lock_condition_def TIMEOUT_def stored_def
      Batch_def set_field_def PENDING_STATES_def)

section \<open>A parameter bound to an empty list\<close>

lemma last_values_empty:
  "(key, []) \<in> set kvs \<Longrightarrow> last_values kvs = Inl (IndexError ''list index out of range'')"
  by (induction kvs) (auto split: sum.splits)

text \<open>
  C10. The invocation acquires the lock, no request fails, the stored record gives no
  status, and some key of the event's \<open>kwargs\<close> is bound to the empty list. Then the
  handler returns status 400 with the \<^verbatim>\<open>IndexError\<close>'s description as message, having
  sent the lock, get and unlock requests only: the lock owner is removed and no job is
  submitted.
\<close>

theorem empty_parameter_list:
  assumes "lock_condition rid (clock w - TIMEOUT) (table w (ev_cache_key ev))"
      and "\<forall>i. faults w i = None"
      and "loaded w (ev_cache_key ev) = Inr b" and "status b = JNull"
      and "(key, []) \<in> set (ev_kwargs ev)"
  shows "handler cfg rid ev w =
           (Inr [(''status'', JInt 400), (''message'', JStr ''list index out of range''),
                 (''dump'', JNull)],
            w\<lparr>trace := trace w @
                 [DbLock (ev_cache_key ev) rid, DbGet (ev_cache_key ev), DbUnlock (ev_cache_key ev) rid],
              table := (table w)(ev_cache_key ev \<mapsto>
                 (case table w (ev_cache_key ev) of None \<Rightarrow> empty_row | Some r \<Rightarrow> r)
                   \<lparr>lock_key := None, update_time := Some (clock w)\<rparr>)\<rparr>)"
proof -
  obtain info where info: "info_of (stored w (ev_cache_key ev)) = Inr info"
    and b: "Batch (ev_cache_key ev) info = Inr b"
    using assms(3) by (auto simp add: loaded_def split: sum.splits)
  have lv: "last_values (ev_kwargs ev) = Inl (IndexError ''list index out of range'')"
    using assms(5) by (rule last_values_empty)
  show ?thesis
  proof (cases "table w (ev_cache_key ev)")
    case None
    then show ?thesis
      using assms(1,2,4) info b lv
      by (simp add: handler_def handler_body_def submission_def lock_unfold get_unfold unlock_unfold
          bnd_def return_def lift_def try_except_def try_finally_def stored_def
          owner_condition_def key_or_def empty_row_def)
  next
    case (Some r)
    then show ?thesis
      using assms(1,2,4) info b lv
      by (simp add: handler_def handler_body_def submission_def lock_unfold get_unfold unlock_unfold
          bnd_def return_def lift_def try_except_def try_finally_def stored_def
          owner_condition_def key_or_def)
  qed
qed

theorem empty_parameter_list_witness:
  "lock_condition ''r1'' (clock new_world - TIMEOUT) (table new_world ''k'')
   \<and> loaded new_world ''k'' =
       Inr \<lparr>cache_key = ''k'', job_id = JNull, job_def = JNull, status = JNull,
            iters = JInt 0, client = None\<rparr>
   \<and> (''image'', []) \<in> set (ev_kwargs empty_arg_event)
   \<and> fst (handler example_config ''r1'' empty_arg_event new_world) =
       Inr [(''status'', JInt 400), (''message'', JStr ''list index out of range''),
            (''dump'', JNull)]
   \<and> calls_since new_world (snd (handler example_config ''r1'' empty_arg_event new_world)) =
       [DbLock ''k'' ''r1'', DbGet ''k'', DbUnlock ''k'' ''r1'']
   \<and> lock_owner (snd (handler example_config ''r1'' empty_arg_event new_world)) ''k'' = None"
  using empty_parameter_list [of "''r1''" new_world empty_arg_event
      "\<lparr>cache_key = ''k'', job_id = JNull, job_def = JNull, status = JNull,
        iters = JInt 0, client = None\<rparr>" "''image''" example_config]
  by (simp add: example_defs observer_defs lock_condition_def info_of_def Batch_def)

section \<open>What every invocation preserves\<close>

text \<open>
  Properties of all paths of the handler, faults included, are proved along the structure
  of the code: each operation relates the world before it to the world after it by
  \<open>evolves P S\<close>, for a predicate \<open>P\<close> on the requests it may send and a preorder
  \<open>S\<close> on the stored states.
\<close>


lemma stored_same: "table w' = table w \<Longrightarrow> stored w' = stored w"
  by (simp add: fun_eq_iff stored_def)

lemma evolves_refl: "fair P S \<Longrightarrow> evolves P S w w"
  by (auto simp add: evolves_def fair_def reflp_def)

lemma evolves_trans:
  assumes "fair P S" and "evolves P S a b" and "evolves P S b c"
  shows "evolves P S a c"
proof -
  obtain cs where cs: "trace b = trace a @ cs" "list_all P cs" and s1: "S (stored a) (stored b)"
    using assms(2) by (auto simp add: evolves_def)
  obtain ds where ds: "trace c = trace b @ ds" "list_all P ds" and s2: "S (stored b) (stored c)"
    using assms(3) by (auto simp add: evolves_def)
  have "trace c = trace a @ (cs @ ds)" "list_all P (cs @ ds)"
    using cs ds by simp_all
  moreover have "S (stored a) (stored c)"
    using assms(1) s1 s2 by (auto simp add: fair_def dest: transpD)
  ultimately show ?thesis
    unfolding evolves_def by blast
qed

lemma evolves_sent:
  assumes "fair P S" and "P c" and "trace w' = trace w @ [c]" and "S (stored w) (stored w')"
  shows "evolves P S w w'"
  using assms by (simp add: evolves_def)

lemma evolves_sent_same:
  assumes "fair P S" and "P c" and "trace w' = trace w @ [c]" and "stored w' = stored w"
  shows "evolves P S w w'"
  using assms by (auto simp add: evolves_def fair_def reflp_def)

lemma fair_routine: "fair P S \<Longrightarrow> routine c \<Longrightarrow> P c"
  by (simp add: fair_def)

lemma stepsI: "(\<And>w. R w (snd (m w))) \<Longrightarrow> steps R m"
  by (simp add: steps_def)

lemma stepsD: "steps R m \<Longrightarrow> R w (snd (m w))"
  by (simp add: steps_def)

lemma steps_return: "fair P S \<Longrightarrow> steps (evolves P S) (return x)"
  by (simp add: steps_def return_def evolves_refl)

lemma steps_raise: "fair P S \<Longrightarrow> steps (evolves P S) (raise e)"
  by (simp add: steps_def raise_def evolves_refl)

lemma steps_lift: "fair P S \<Longrightarrow> steps (evolves P S) (lift r)"
  by (simp add: steps_def lift_def evolves_refl)

lemma steps_bnd_post:
  assumes "fair P S" and "steps (evolves P S) m"
      and "\<And>w x w'. m w = (Inr x, w') \<Longrightarrow> Q x"
      and "\<And>x. Q x \<Longrightarrow> steps (evolves P S) (f x)"
  shows "steps (evolves P S) (bnd m f)"
proof (rule stepsI)
  fix w
  obtain r w' where m: "m w = (r, w')" by (cases "m w")
  have 1: "evolves P S w w'" using stepsD [OF assms(2), of w] m by simp
  show "evolves P S w (snd (bnd m f w))"
  proof (cases r)
    case (Inl e)
    then show ?thesis using m 1 by (simp add: bnd_def)
  next
    case (Inr x)
    then have "Q x" using m assms(3) by blast
    then have "evolves P S w' (snd (f x w'))" using assms(4) stepsD by blast
    then show ?thesis using Inr m 1 evolves_trans [OF assms(1)] by (auto simp add: bnd_def)
  qed
qed

lemma steps_bnd:
  assumes "fair P S" and "steps (evolves P S) m" and "\<And>x. steps (evolves P S) (f x)"
  shows "steps (evolves P S) (bnd m f)"
  using steps_bnd_post [OF assms(1,2), of "\<lambda>x. True" f] assms(3) by simp

lemma steps_try_except:
  assumes "fair P S" and "steps (evolves P S) m" and "\<And>e. steps (evolves P S) (h e)"
  shows "steps (evolves P S) (try_except m h)"
proof (rule stepsI)
  fix w
  obtain r w' where m: "m w = (r, w')" by (cases "m w")
  have 1: "evolves P S w w'" using stepsD [OF assms(2), of w] m by simp
  show "evolves P S w (snd (try_except m h w))"
  proof (cases r)
    case (Inr x)
    then show ?thesis using m 1 by (simp add: try_except_def)
  next
    case (Inl e)
    have "evolves P S w' (snd (h e w'))" using assms(3) stepsD by blast
    then show ?thesis using Inl m 1 evolves_trans [OF assms(1)] by (auto simp add: try_except_def)
  qed
qed

lemma steps_try_finally:
  assumes "fair P S" and "steps (evolves P S) m" and "steps (evolves P S) f"
  shows "steps (evolves P S) (try_finally m f)"
proof (rule stepsI)
  fix w
  obtain r w' where m: "m w = (r, w')" by (cases "m w")
  obtain u w'' where f: "f w' = (u, w'')" by (cases "f w'")
  have 1: "evolves P S w w'" using stepsD [OF assms(2), of w] m by simp
  have 2: "evolves P S w' w''" using stepsD [OF assms(3), of w'] f by simp
  have "snd (try_finally m f w) = w''"
    using m f by (cases u) (simp_all add: try_finally_def)
  then show "evolves P S w (snd (try_finally m f w))"
    using evolves_trans [OF assms(1) 1 2] by simp
qed

lemma steps_request: "fair P S \<Longrightarrow> P c \<Longrightarrow> steps (evolves P S) (request c)"
proof (rule stepsI)
  fix w
  assume a: "fair P S" "P c"
  have t: "trace (snd (request c w)) = trace w @ [c]"
    by (simp add: request_def split: option.splits)
  have "table (snd (request c w)) = table w"
    by (simp add: request_def split: option.splits)
  then have "stored (snd (request c w)) = stored w"
    by (rule stored_same)
  then show "evolves P S w (snd (request c w))"
    using a t by (rule_tac evolves_sent_same)
qed

lemma lock_trace:
  "trace (snd (lock d key w)) = trace w @ [DbLock (key_or key (d_cache_key d)) (run_id d)]"
  by (simp add: lock_unfold split: option.splits error.splits)

lemma lock_stored: "stored (snd (lock d key w)) = stored w"
  by (simp add: lock_unfold fun_eq_iff stored_def empty_row_def split: option.splits error.splits)

lemma steps_lock: "fair P S \<Longrightarrow> steps (evolves P S) (lock d key)"
  by (rule stepsI) (rule evolves_sent_same [OF _ _ lock_trace lock_stored], simp_all add: fair_routine)


lemma unlock_stored: "stored (snd (unlock d key w)) = stored w"
  by (simp add: unlock_unfold fun_eq_iff stored_def empty_row_def split: option.splits error.splits)

lemma steps_unlock: "fair P S \<Longrightarrow> steps (evolves P S) (unlock d key)"
  by (rule stepsI) (rule evolves_sent_same [OF _ _ unlock_trace unlock_stored], simp_all add: fair_routine)

lemma get_trace: "trace (snd (get d w)) = trace w @ [DbGet (d_cache_key d)]"
  by (simp add: get_unfold split: option.splits)

lemma get_stored: "stored (snd (get d w)) = stored w"
  by (simp add: get_unfold fun_eq_iff stored_def split: option.splits)

lemma steps_get: "fair P S \<Longrightarrow> steps (evolves P S) (get d)"
  by (rule stepsI) (rule evolves_sent_same [OF _ _ get_trace get_stored], simp_all add: fair_routine)

lemma put_trace:
  "trace (snd (put d ob w)) = trace w @ [DbPut (d_cache_key d) (run_id d) (JObj ob)]"
  by (simp add: put_unfold split: option.splits error.splits)

lemma put_stored:
  "stored (snd (put d ob w)) = stored w \<or>
   stored (snd (put d ob w)) = (stored w)(d_cache_key d := Some (JObj ob))"
  by (simp add: put_unfold fun_eq_iff stored_def split: option.splits error.splits)

lemma steps_put:
  assumes "fair P S" and "put_ok P S d ob"
  shows "steps (evolves P S) (put d ob)"
proof (rule stepsI)
  fix w
  have "S (stored w) (stored (snd (put d ob w)))"
    using put_stored [of d ob w] assms by (auto simp add: put_ok_def fair_def reflp_def)
  then show "evolves P S w (snd (put d ob w))"
    using assms put_trace [of d ob w] by (auto simp add: put_ok_def intro: evolves_sent)
qed

lemma delete_unfold:
  "delete d w =
     (case faults w (length (trace w)) of
        Some e \<Rightarrow> (Inl e, w\<lparr>trace := trace w @ [DbDelete (d_cache_key d) (run_id d)]\<rparr>)
      | None \<Rightarrow>
          if lock_condition (run_id d) (clock w - TIMEOUT) (table w (d_cache_key d))
          then (Inr (), w\<lparr>trace := trace w @ [DbDelete (d_cache_key d) (run_id d)],
                         table := (table w)(d_cache_key d := None)\<rparr>)
          else (Inl (ClientError ''DeleteItem'' ''ConditionalCheckFailedException''
                       ''The conditional request failed''),
                w\<lparr>trace := trace w @ [DbDelete (d_cache_key d) (run_id d)]\<rparr>))"
  by (simp add: delete_def delete_item_def io_defs split: option.splits)

lemma delete_trace:
  "trace (snd (delete d w)) = trace w @ [DbDelete (d_cache_key d) (run_id d)]"
  by (simp add: delete_unfold split: option.splits)

lemma delete_stored:
  "stored (snd (delete d w)) = stored w \<or>
   stored (snd (delete d w)) = (stored w)(d_cache_key d := None)"
  by (simp add: delete_unfold fun_eq_iff stored_def split: option.splits)

lemma steps_delete:
  assumes "fair P S" and "delete_ok S d"
  shows "steps (evolves P S) (delete d)"
proof (rule stepsI)
  fix w
  have s: "S (stored w) (stored (snd (delete d w)))"
    using delete_stored [of d w] assms by (auto simp add: delete_ok_def fair_def reflp_def)
  have p: "P (DbDelete (d_cache_key d) (run_id d))"
    using assms(1) by (rule fair_routine) simp
  show "evolves P S w (snd (delete d w))"
    using assms(1) p delete_trace s by (rule evolves_sent)
qed

text \<open>A request followed by a change of something other than the table and the trace.\<close>

lemma steps_request_then:
  assumes "fair P S" and "P c"
      and "\<And>u w. table (snd (k u w)) = table w \<and> trace (snd (k u w)) = trace w"
  shows "steps (evolves P S) (bnd (request c) k)"
proof (rule stepsI)
  fix w
  have t: "trace (snd (bnd (request c) k w)) = trace w @ [c]"
    using assms(3) by (simp add: bnd_def request_def split: option.splits)
  have "table (snd (bnd (request c) k w)) = table w"
    using assms(3) by (simp add: bnd_def request_def split: option.splits)
  then have "stored (snd (bnd (request c) k w)) = stored w"
    by (rule stored_same)
  then show "evolves P S w (snd (bnd (request c) k w))"
    using assms(1,2) t by (rule_tac evolves_sent_same)
qed

lemma steps_head_object: "fair P S \<Longrightarrow> steps (evolves P S) (head_object key)"
  unfolding head_object_def
  by (rule steps_request_then) (simp_all add: fair_routine split: option.splits)

lemma steps_get_object: "fair P S \<Longrightarrow> steps (evolves P S) (get_object key)"
  unfolding get_object_def
  by (rule steps_request_then) (simp_all add: fair_routine split: option.splits)

lemma steps_put_object:
  "fair P S \<Longrightarrow> P (S3Put key body) \<Longrightarrow> steps (evolves P S) (put_object key body)"
  unfolding put_object_def
  by (rule steps_request_then) simp_all

lemma steps_register_job_definition:
  assumes "fair P S" and "P (BatchRegister name props)"
  shows "steps (evolves P S) (register_job_definition cfg name props)"
proof (cases "validate_props cfg props")
  case None
  have "steps (evolves P S)
          (bnd (request (BatchRegister name props)) (\<lambda>u w.
            let arn = arn_at w (length (trace w) - 1)
            in (Inr arn, w\<lparr>job_defs := (job_defs w)(arn \<mapsto>
                  \<lparr>jd_name = name, jd_props = props, jd_active = True\<rparr>)\<rparr>)))"
    using assms by (rule steps_request_then) (simp_all add: Let_def)
  then show ?thesis
    using None by (simp add: register_job_definition_def)
next
  case (Some report)
  then show ?thesis
    using assms(1) by (simp add: register_job_definition_def steps_raise)
qed

lemma steps_submit_job:
  "fair P S \<Longrightarrow> P (BatchSubmit name queue jd) \<Longrightarrow> steps (evolves P S) (submit_job name queue jd)"
  unfolding submit_job_def
  by (rule steps_request_then) (simp_all add: Let_def)

lemma steps_describe_jobs: "fair P S \<Longrightarrow> steps (evolves P S) (describe_jobs jid)"
  unfolding describe_jobs_def
  by (rule steps_request_then) (simp_all add: fair_routine)

lemma steps_deregister_job_definition:
  "fair P S \<Longrightarrow> steps (evolves P S) (deregister_job_definition arn)"
  unfolding deregister_job_definition_def
  by (rule steps_request_then) (simp_all add: fair_routine)

lemma steps_client_method: "fair P S \<Longrightarrow> steps (evolves P S) (client_method b name)"
  by (simp add: client_method_def steps_return steps_raise split: option.splits)

lemma steps_string_param: "fair P S \<Longrightarrow> steps (evolves P S) (string_param name v)"
  by (simp add: string_param_def steps_return steps_raise split: json.splits)

lemma steps_if:
  "(c \<Longrightarrow> steps R a) \<Longrightarrow> (\<not> c \<Longrightarrow> steps R b) \<Longrightarrow> steps R (if c then a else b)"
  by simp


lemma steps_s3_get: "fair P S \<Longrightarrow> steps (evolves P S) (s3_get key)"
  unfolding s3_get_def
  by (intro steps_bnd steps_try_except steps_head_object steps_get_object steps_return)
    (simp_all add: steps_return steps_raise steps_bnd steps_get_object split: error.splits)

lemma steps_s3_put:
  "fair P S \<Longrightarrow> P (S3Put key data) \<Longrightarrow> steps (evolves P S) (s3_put cfg data key)"
  unfolding s3_put_def
  by (intro steps_bnd steps_put_object steps_return)

lemma steps_gc: "fair P S \<Longrightarrow> steps (evolves P S) (gc b)"
  unfolding gc_def
  by (intro steps_bnd steps_try_except steps_client_method steps_string_param
      steps_deregister_job_definition)
    (simp_all add: steps_return steps_raise split: error.splits)

lemma steps_create_job_def:
  "fair P S \<Longrightarrow> P (BatchRegister name props) \<Longrightarrow>
     steps (evolves P S) (create_job_def cfg b name props)"
  unfolding create_job_def_def
  by (intro steps_bnd steps_client_method steps_register_job_definition steps_return)

lemma steps_update: "fair P S \<Longrightarrow> steps (evolves P S) (update b)"
  unfolding update_def
  by (intro steps_bnd steps_client_method steps_string_param steps_describe_jobs)
    (simp_all add: steps_return steps_raise steps_bnd steps_lift split: list.splits)

lemma update_status:
  "update b w = (Inr mb, w') \<Longrightarrow> job_id (snd mb) \<noteq> JNull \<and> status (snd mb) \<noteq> JNull"
  by (auto simp add: update_def client_method_def string_param_def describe_jobs_def
      io_defs split: option.splits json.splits sum.splits list.splits if_splits prod.splits)

lemma input_key_prefix: "prefix cfg b @ ''/input.data'' = input_key cfg (cache_key b)"
  by (simp add: prefix_def input_key_def split: option.splits)

lemma steps_submit:
  assumes "fair P S" and "\<And>c. submission_for cfg (cache_key b) c \<Longrightarrow> P c"
  shows "steps (evolves P S) (submit cfg b dump script img requirements)"
proof -
  have 1: "P (S3Put (prefix cfg b @ ''/input.data'') dump)"
    by (rule assms(2)) (simp add: input_key_prefix)
  have 2: "\<And>props. P (BatchRegister (''fn-'' @ cache_key b) props)"
    by (rule assms(2)) simp
  have 3: "\<And>queue jd. P (BatchSubmit (''fn-'' @ cache_key b) queue jd)"
    by (rule assms(2)) simp
  show ?thesis
    unfolding submit_def
    by (intro steps_bnd steps_s3_put steps_lift steps_create_job_def steps_client_method
        steps_string_param steps_submit_job steps_return assms(1) 1 2 3)
qed

lemma submit_status:
  "submit cfg b dump script img requirements w = (Inr b1, w') \<Longrightarrow>
     job_id b1 \<noteq> JNull \<and> status b1 = JStr ''submitted''"
  by (auto simp add: submit_def bnd_def return_def split: sum.splits prod.splits)


lemma steps_success_pipeline:
  assumes "fair P S" and "put_ok P S d (state_dict b)"
  shows "steps (evolves P S) (success_pipeline cfg d b)"
proof -
  have sd: "\<And>v. state_dict (b\<lparr>iters := v\<rparr>) = state_dict b"
    by (simp add: state_dict_def)
  show ?thesis
    unfolding success_pipeline_def
    by (intro steps_bnd steps_if steps_gc steps_return steps_s3_get assms(1))
      (simp add: sd assms steps_return steps_raise steps_bnd steps_put
        split: option.splits json.splits)
qed

lemma steps_polling:
  assumes "fair P S"
      and "\<And>b'. job_id b' \<noteq> JNull \<Longrightarrow> status b' \<noteq> JNull \<Longrightarrow> put_ok P S d (state_dict b')"
      and "env_truthy (DELETE_DYNAMO_ON_FAIL cfg) \<Longrightarrow> delete_ok S d"
  shows "steps (evolves P S) (polling cfg d b)"
  unfolding polling_def
proof (rule steps_bnd_post [where Q = "\<lambda>mb. job_id (snd mb) \<noteq> JNull \<and> status (snd mb) \<noteq> JNull"])
  show "fair P S" by (rule assms(1))
  show "steps (evolves P S) (update b)" by (rule steps_update [OF assms(1)])
  show "\<And>w x w'. update b w = (Inr x, w') \<Longrightarrow> job_id (snd x) \<noteq> JNull \<and> status (snd x) \<noteq> JNull"
    by (rule update_status)
next
  fix mb :: "string \<times> batch"
  assume st: "job_id (snd mb) \<noteq> JNull \<and> status (snd mb) \<noteq> JNull"
  have p: "put_ok P S d (state_dict (snd mb))" using st by (intro assms(2)) simp_all
  show "steps (evolves P S)
          (bnd (put d (state_dict (snd mb)))
            (\<lambda>ok. if is_pending (status (snd mb))
                   then bnd (put d (state_dict (snd mb)))
                          (\<lambda>ok2. return [(''status'', JInt 202), (''message'', JStr (fst mb)),
                                          (''dump'', JNull)])
                   else if status (snd mb) = JStr FAILED_STATE
                        then bnd (if env_truthy (DELETE_DYNAMO_ON_FAIL cfg) then delete d
                                  else return ())
                               (\<lambda>u. return [(''status'', JInt 400), (''message'', JStr (fst mb)),
                                             (''dump'', JNull)])
                        else success_pipeline cfg d (snd mb)))"
    by (intro steps_bnd steps_if steps_put steps_return steps_delete steps_success_pipeline
        assms(1) assms(3) p)
qed

lemma steps_submission:
  assumes "fair P S"
      and "\<And>b'. job_id b' \<noteq> JNull \<Longrightarrow> status b' \<noteq> JNull \<Longrightarrow> put_ok P S d (state_dict b')"
      and "\<And>c. submission_for cfg (cache_key b) c \<Longrightarrow> P c"
  shows "steps (evolves P S) (submission cfg d ev b)"
proof -
  have inner: "steps (evolves P S)
          (bnd (submit cfg b (ev_dump ev) (fst args) (fst (snd args)) (snd (snd args)))
            (\<lambda>b1. bnd (put d (state_dict b1))
                     (\<lambda>ok. return [(''status'', JInt 201),
                                    (''message'', JStr ''job created and submitted''),
                                    (''dump'', JNull)])))" for args :: "json \<times> json \<times> json"
  proof (rule steps_bnd_post [where Q = "\<lambda>b1. job_id b1 \<noteq> JNull \<and> status b1 = JStr ''submitted''"])
    show "fair P S" by (rule assms(1))
    show "steps (evolves P S) (submit cfg b (ev_dump ev) (fst args) (fst (snd args)) (snd (snd args)))"
      by (rule steps_submit [OF assms(1)]) (rule assms(3))
    show "\<And>w x w'. submit cfg b (ev_dump ev) (fst args) (fst (snd args)) (snd (snd args)) w
                       = (Inr x, w') \<Longrightarrow> job_id x \<noteq> JNull \<and> status x = JStr ''submitted''"
      by (rule submit_status)
  next
    fix b1 :: batch
    assume "job_id b1 \<noteq> JNull \<and> status b1 = JStr ''submitted''"
    then have "put_ok P S d (state_dict b1)" by (intro assms(2)) simp_all
    then show "steps (evolves P S)
                 (bnd (put d (state_dict b1))
                   (\<lambda>ok. return [(''status'', JInt 201),
                                  (''message'', JStr ''job created and submitted''),
                                  (''dump'', JNull)]))"
      by (intro steps_bnd steps_put steps_return assms(1))
  qed
  show ?thesis
    unfolding submission_def
    by (rule steps_bnd [OF assms(1)], rule steps_lift [OF assms(1)],
        rule steps_bnd [OF assms(1)], rule steps_lift [OF assms(1)], rule inner)
qed

lemma set_fields_cache_key:
  "set_fields b0 info = Inr b \<Longrightarrow> cache_key b = cache_key b0"
  by (induction info arbitrary: b0)
    (auto simp add: set_field_def split: sum.splits if_splits)

lemma Batch_cache_key: "Batch ck info = Inr b \<Longrightarrow> cache_key b = ck"
  unfolding Batch_def by (drule set_fields_cache_key) simp

lemma get_result: "get d w = (Inr r, w') \<Longrightarrow> r = stored w (d_cache_key d)"
  by (auto simp add: get_unfold stored_def split: option.splits)

text \<open>The guarded body, from the world in which it starts.\<close>

lemma handler_body_evolves:
  assumes "fair P S" and "d_cache_key d = ev_cache_key ev"
      and "\<And>b'. job_id b' \<noteq> JNull \<Longrightarrow> status b' \<noteq> JNull \<Longrightarrow> put_ok P S d (state_dict b')"
      and "env_truthy (DELETE_DYNAMO_ON_FAIL cfg) \<Longrightarrow> delete_ok S d"
      and "\<And>b c. loaded w (ev_cache_key ev) = Inr b \<Longrightarrow> status b = JNull \<Longrightarrow>
             submission_for cfg (ev_cache_key ev) c \<Longrightarrow> P c"
      and "\<And>b. loaded w (ev_cache_key ev) = Inr b \<Longrightarrow> status b = JStr SUCCESS_STATE \<Longrightarrow>
             put_ok P S d (state_dict b)"
  shows "evolves P S w (snd (handler_body cfg d ev w))"
proof -
  obtain rg w2 where g: "get d w = (rg, w2)" by (cases "get d w")
  have e1: "evolves P S w w2"
    using stepsD [OF steps_get [OF assms(1)], of w d] g by simp
  show ?thesis
  proof (cases rg)
    case (Inl e)
    then show ?thesis using g e1 by (simp add: handler_body_def bnd_def)
  next
    case (Inr r)
    then have r: "r = stored w (ev_cache_key ev)"
      using g get_result assms(2) by metis
    show ?thesis
    proof (cases "info_of r")
      case (Inl e)
      then show ?thesis using g \<open>rg = Inr r\<close> e1 by (simp add: handler_body_def bnd_def lift_def)
    next
      case info: (Inr info)
      show ?thesis
      proof (cases "Batch (ev_cache_key ev) info")
        case (Inl e)
        then show ?thesis
          using g \<open>rg = Inr r\<close> info e1 by (simp add: handler_body_def bnd_def lift_def)
      next
        case b: (Inr b)
        have ld: "loaded w (ev_cache_key ev) = Inr b"
          using r info b by (simp add: loaded_def)
        have ck: "cache_key b = ev_cache_key ev"
          using b by (rule Batch_cache_key)
        have "steps (evolves P S)
                (if status b = JNull then submission cfg d ev b
                 else if status b = JStr SUCCESS_STATE then success_pipeline cfg d b
                 else polling cfg d b)"
        proof (intro steps_if)
          assume "status b = JNull"
          then show "steps (evolves P S) (submission cfg d ev b)"
            using assms(5) [OF ld] ck
            by (intro steps_submission assms(1) assms(3)) simp_all
        next
          assume "status b = JStr SUCCESS_STATE"
          then have "put_ok P S d (state_dict b)" using ld by (intro assms(6))
          then show "steps (evolves P S) (success_pipeline cfg d b)"
            by (intro steps_success_pipeline assms(1))
        next
          show "steps (evolves P S) (polling cfg d b)"
            by (intro steps_polling assms(1) assms(3) assms(4))
        qed
        then have "evolves P S w2
                (snd ((if status b = JNull then submission cfg d ev b
                 else if status b = JStr SUCCESS_STATE then success_pipeline cfg d b
                 else polling cfg d b) w2))"
          by (rule stepsD)
        then have "evolves P S w2 (snd (handler_body cfg d ev w))"
          using g \<open>rg = Inr r\<close> info b by (simp add: handler_body_def bnd_def lift_def)
        then show ?thesis using evolves_trans [OF assms(1) e1] by blast
      qed
    qed
  qed
qed


lemma snd_try_except_return:
  "snd (try_except m (\<lambda>e. return (h e)) w) = snd (m w)"
  by (simp add: try_except_def return_def split: prod.splits sum.splits)

lemma snd_try_finally: "snd (try_finally m f w) = snd (f (snd (m w)))"
  by (simp add: try_finally_def split: prod.splits sum.splits)

lemma loaded_cong: "stored w' = stored w \<Longrightarrow> loaded w' k = loaded w k"
  by (simp add: loaded_def)

text \<open>One invocation, from the world in which it starts.\<close>

lemma handler_evolves:
  assumes "fair P S"
      and "\<And>b'. job_id b' \<noteq> JNull \<Longrightarrow> status b' \<noteq> JNull \<Longrightarrow>
             put_ok P S \<lparr>d_cache_key = ev_cache_key ev, run_id = rid\<rparr> (state_dict b')"
      and "env_truthy (DELETE_DYNAMO_ON_FAIL cfg) \<Longrightarrow>
             delete_ok S \<lparr>d_cache_key = ev_cache_key ev, run_id = rid\<rparr>"
      and "\<And>b c. loaded w (ev_cache_key ev) = Inr b \<Longrightarrow> status b = JNull \<Longrightarrow>
             submission_for cfg (ev_cache_key ev) c \<Longrightarrow> P c"
      and "\<And>b. loaded w (ev_cache_key ev) = Inr b \<Longrightarrow> status b = JStr SUCCESS_STATE \<Longrightarrow>
             put_ok P S \<lparr>d_cache_key = ev_cache_key ev, run_id = rid\<rparr> (state_dict b)"
  shows "evolves P S w (snd (handler cfg rid ev w))"
proof -
  let ?d = "\<lparr>d_cache_key = ev_cache_key ev, run_id = rid\<rparr>"
  obtain rl w1 where l: "lock ?d None w = (rl, w1)" by (cases "lock ?d None w")
  have e1: "evolves P S w w1"
    using stepsD [OF steps_lock [OF assms(1)], of w ?d None] l by simp
  have "stored w1 = stored w"
    using lock_stored [of ?d None w] l by simp
  then have ld: "loaded w1 (ev_cache_key ev) = loaded w (ev_cache_key ev)"
    by (rule loaded_cong)
  show ?thesis
  proof (cases "rl = Inr True")
    case False
    then have "snd (handler cfg rid ev w) = w1"
      using l by (cases rl) (auto simp add: handler_def bnd_def return_def)
    then show ?thesis using e1 by simp
  next
    case True
    let ?w2 = "snd (handler_body cfg ?d ev w1)"
    have e2: "evolves P S w1 ?w2"
    proof (rule handler_body_evolves [OF assms(1) _ assms(2) assms(3)])
      show "d_cache_key ?d = ev_cache_key ev" by simp
      show "\<And>b c. loaded w1 (ev_cache_key ev) = Inr b \<Longrightarrow> status b = JNull \<Longrightarrow>
              submission_for cfg (ev_cache_key ev) c \<Longrightarrow> P c"
        unfolding ld by (rule assms(4))
      show "\<And>b. loaded w1 (ev_cache_key ev) = Inr b \<Longrightarrow> status b = JStr SUCCESS_STATE \<Longrightarrow>
              put_ok P S ?d (state_dict b)"
        unfolding ld by (rule assms(5))
    qed
    have e3: "evolves P S ?w2 (snd (unlock ?d None ?w2))"
      by (rule stepsD [OF steps_unlock [OF assms(1)]])
    have "snd (handler cfg rid ev w) = snd (unlock ?d None ?w2)"
      using l True by (simp add: handler_def bnd_def snd_try_finally snd_try_except_return)
    then show ?thesis
      using evolves_trans [OF assms(1) e1 evolves_trans [OF assms(1) e2 e3]] by simp
  qed
qed


subsection \<open>Whole histories\<close>

lemma evolves_outside:
  assumes "fair P S"
  shows "evolves P S w (e\<lparr>table := table w, trace := trace w\<rparr>)"
proof -
  have "stored (e\<lparr>table := table w, trace := trace w\<rparr>) = stored w"
    by (rule stored_same) simp
  then show ?thesis
    using assms by (simp add: evolves_def fair_def reflp_def)
qed

lemma evolves_calls:
  "evolves P S w w' \<Longrightarrow> list_all P (calls_since w w')"
  by (auto simp add: evolves_def calls_since_def)

lemma evolves_stored: "evolves P S w w' \<Longrightarrow> S (stored w) (stored w')"
  by (simp add: evolves_def)

lemma list_all_not_filter: "list_all (\<lambda>c. \<not> Q c) cs \<Longrightarrow> filter Q cs = []"
  by (induction cs) auto

subsection \<open>The shape of what is written\<close>

lemma routine_state_keys: "routine c \<Longrightarrow> put_has_state_keys c"
  by (cases c) simp_all

lemma fair_engine_writes: "fair put_has_state_keys only_engine_writes"
  unfolding fair_def
proof (intro conjI allI impI)
  show "reflp only_engine_writes"
    by (simp add: reflp_def only_engine_writes_def)
  show "transp only_engine_writes"
  proof (rule transpI)
    fix x y z :: "string \<Rightarrow> json option"
    assume 1: "only_engine_writes x y" and 2: "only_engine_writes y z"
    show "only_engine_writes x z"
      unfolding only_engine_writes_def
    proof
      fix k
      have "y k = x k \<or> written_by_engine (y k)"
        using 1 by (simp add: only_engine_writes_def)
      moreover have "z k = y k \<or> written_by_engine (z k)"
        using 2 by (simp add: only_engine_writes_def)
      ultimately show "z k = x k \<or> written_by_engine (z k)"
        by auto
    qed
  qed
  show "\<And>c. routine c \<Longrightarrow> put_has_state_keys c"
    by (rule routine_state_keys)
qed

lemma put_ok_engine_writes: "put_ok put_has_state_keys only_engine_writes d (state_dict b)"
  by (simp add: put_ok_def only_engine_writes_def state_dict_def)

lemma submission_state_keys: "submission_for cfg k c \<Longrightarrow> put_has_state_keys c"
  by (cases c) simp_all

lemma handler_engine_writes:
  "evolves put_has_state_keys only_engine_writes w (snd (handler cfg rid ev w))"
  by (rule handler_evolves [OF fair_engine_writes])
    (simp_all add: put_ok_engine_writes delete_ok_def only_engine_writes_def
      submission_state_keys)

lemma run_engine_writes:
  "evolves put_has_state_keys only_engine_writes w (run cfg xs w)"
proof (induction cfg xs w rule: run.induct)
  case (1 cfg w)
  show ?case by (simp add: evolves_refl [OF fair_engine_writes])
next
  case (2 cfg rid ev xs w)
  show ?case
    using evolves_trans [OF fair_engine_writes handler_engine_writes "2.IH"] by simp
next
  case (3 cfg e xs w)
  show ?case
    using evolves_trans [OF fair_engine_writes evolves_outside [OF fair_engine_writes] "3.IH"]
    by simp
qed

lemma state_dict_reload:
  "Batch ck (state_dict b) =
     Inr \<lparr>cache_key = ck, job_id = job_id b, job_def = job_def b, status = status b,
          iters = JInt 0, client = None\<rparr>"
  by (simp add: Batch_def state_dict_def set_field_def)

lemma three_keys:
  assumes "map fst d = [k1, k2, k3]"
  shows "\<exists>v1 v2 v3. d = [(k1, v1), (k2, v2), (k3, v3)]"
proof -
  obtain p1 d1 where d: "d = p1 # d1" and "fst p1 = k1" and 1: "map fst d1 = [k2, k3]"
    using assms by (cases d) auto
  obtain p2 d2 where d1: "d1 = p2 # d2" and "fst p2 = k2" and 2: "map fst d2 = [k3]"
    using 1 by (cases d1) auto
  obtain p3 where d2: "d2 = [p3]" and "fst p3 = k3"
    using 2 by (cases d2) auto
  show ?thesis
    using d d1 d2 \<open>fst p1 = k1\<close> \<open>fst p2 = k2\<close> \<open>fst p3 = k3\<close>
    by (cases p1; cases p2; cases p3) simp
qed

lemma engine_written_reload:
  assumes "written_by_engine (stored w k)"
  shows "\<exists>b. loaded w k = Inr b \<and> iters b = JInt 0"
proof (cases "stored w k")
  case None
  then show ?thesis by (simp add: loaded_def info_of_def Batch_def)
next
  case (Some v)
  then obtain d where v: "v = JObj d" and keys: "map fst d = [''job_id'', ''job_def'', ''status'']"
    using assms by (cases v) simp_all
  obtain v1 v2 v3 where "d = [(''job_id'', v1), (''job_def'', v2), (''status'', v3)]"
    using three_keys [OF keys] by blast
  then show ?thesis
    using Some v by (simp add: loaded_def info_of_def Batch_def set_field_def)
qed

text \<open>
  C9. \<open>state_dict\<close> has exactly the keys \<open>job_id\<close>, \<open>job_def\<close> and \<open>status\<close>, and
  every state written to the table in any history, whatever the requests fail with, has
  exactly these keys. A job state rebuilt from such a record has its iteration count at
  the default 0; so, from a table that holds only absent or engine-written states, what any
  later invocation loads for any key has \<open>iters = 0\<close>.
\<close>

theorem state_has_no_iterations:
  "map fst (state_dict b) = [''job_id'', ''job_def'', ''status'']
   \<and> list_all put_has_state_keys (calls_since w (run cfg xs w))
   \<and> Batch ck (state_dict b) =
       Inr \<lparr>cache_key = ck, job_id = job_id b, job_def = job_def b, status = status b,
            iters = JInt 0, client = None\<rparr>
   \<and> ((\<forall>k. written_by_engine (stored w k)) \<longrightarrow>
        (\<exists>b'. loaded (run cfg xs w) k' = Inr b' \<and> iters b' = JInt 0))"
proof (intro conjI impI)
  show "map fst (state_dict b) = [''job_id'', ''job_def'', ''status'']"
    by (simp add: state_dict_def)
  show "list_all put_has_state_keys (calls_since w (run cfg xs w))"
    using run_engine_writes by (rule evolves_calls)
  show "Batch ck (state_dict b) =
       Inr \<lparr>cache_key = ck, job_id = job_id b, job_def = job_def b, status = status b,
            iters = JInt 0, client = None\<rparr>"
    by (rule state_dict_reload)
next
  assume a: "\<forall>k. written_by_engine (stored w k)"
  have "only_engine_writes (stored w) (stored (run cfg xs w))"
    using run_engine_writes by (rule evolves_stored)
  then have "stored (run cfg xs w) k' = stored w k' \<or> written_by_engine (stored (run cfg xs w) k')"
    by (simp add: only_engine_writes_def)
  moreover have "written_by_engine (stored w k')"
    using a by simp
  ultimately have "written_by_engine (stored (run cfg xs w) k')"
    by (elim disjE) simp_all
  then show "\<exists>b'. loaded (run cfg xs w) k' = Inr b' \<and> iters b' = JInt 0"
    by (rule engine_written_reload)
qed


theorem state_has_no_iterations_witness:
  "(\<forall>k. written_by_engine (stored new_world k))
   \<and> list_all put_has_state_keys
       (calls_since new_world
          (run example_config
             [Invoke ''r1'' example_event, Outside succeeded_world, Invoke ''r2'' example_event]
             new_world))
   \<and> stored (run example_config
               [Invoke ''r1'' example_event, Outside succeeded_world, Invoke ''r2'' example_event]
               new_world) ''k'' =
       Some (JObj [(''job_id'', JStr ''job''), (''job_def'', JStr ''arn''),
                   (''status'', JStr ''SUCCEEDED'')])
   \<and> loaded (run example_config
               [Invoke ''r1'' example_event, Outside succeeded_world, Invoke ''r2'' example_event]
               new_world) ''k'' =
       Inr \<lparr>cache_key = ''k'', job_id = JStr ''job'', job_def = JStr ''arn'',
            status = JStr ''SUCCEEDED'', iters = JInt 0, client = None\<rparr>"
  using state_has_no_iterations [of _ new_world example_config
      "[Invoke ''r1'' example_event, Outside succeeded_world, Invoke ''r2'' example_event]" _ "''k''"]
  by (simp add: io_defs dynamo_defs s3_defs batch_defs handler_defs observer_defs example_defs)

subsection \<open>Submission\<close>

lemma fair_no_submission: "fair (\<lambda>c. \<not> is_submission c) (\<lambda>f f'. True)"
proof -
  have "\<And>c. routine c \<Longrightarrow> \<not> is_submission c"
    subgoal for c by (cases c) simp_all
    done
  then show ?thesis
    by (simp add: fair_def reflp_def transp_def)
qed

lemma submission_for_is_submission: "submission_for cfg k c \<Longrightarrow> is_submission c"
  by (cases c) simp_all

lemma handler_no_submission:
  assumes "\<not> (\<exists>b. loaded w (ev_cache_key ev) = Inr b \<and> status b = JNull)"
  shows "filter is_submission (calls_since w (snd (handler cfg rid ev w))) = []"
proof -
  have "evolves (\<lambda>c. \<not> is_submission c) (\<lambda>f f'. True) w (snd (handler cfg rid ev w))"
  proof (rule handler_evolves [OF fair_no_submission])
    show "\<And>b c. loaded w (ev_cache_key ev) = Inr b \<Longrightarrow> status b = JNull \<Longrightarrow>
            submission_for cfg (ev_cache_key ev) c \<Longrightarrow> \<not> is_submission c"
      using assms by blast
  qed (simp_all add: put_ok_def delete_ok_def)
  then have "list_all (\<lambda>c. \<not> is_submission c) (calls_since w (snd (handler cfg rid ev w)))"
    by (rule evolves_calls)
  then show ?thesis
    by (rule list_all_not_filter)
qed

lemma handler_not_locked:
  assumes "fst (lock \<lparr>d_cache_key = ev_cache_key ev, run_id = rid\<rparr> None w) \<noteq> Inr True"
  shows "calls_since w (snd (handler cfg rid ev w)) = [DbLock (ev_cache_key ev) rid]"
proof -
  let ?d = "\<lparr>d_cache_key = ev_cache_key ev, run_id = rid\<rparr>"
  obtain rl w1 where l: "lock ?d None w = (rl, w1)" by (cases "lock ?d None w")
  have "snd (handler cfg rid ev w) = w1"
    using l assms by (cases rl) (auto simp add: handler_def bnd_def return_def)
  moreover have "trace w1 = trace w @ [DbLock (ev_cache_key ev) rid]"
    using lock_trace [of ?d None w] l by (simp add: key_or_def)
  ultimately show ?thesis
    by (simp add: calls_since_def)
qed

lemma submission_guarded:
  assumes "filter is_submission (calls_since w (snd (handler cfg rid ev w))) \<noteq> []"
  shows "fst (lock \<lparr>d_cache_key = ev_cache_key ev, run_id = rid\<rparr> None w) = Inr True \<and>
         (\<exists>b. loaded w (ev_cache_key ev) = Inr b \<and> status b = JNull)"
proof
  show "fst (lock \<lparr>d_cache_key = ev_cache_key ev, run_id = rid\<rparr> None w) = Inr True"
  proof (rule ccontr)
    assume "fst (lock \<lparr>d_cache_key = ev_cache_key ev, run_id = rid\<rparr> None w) \<noteq> Inr True"
    then have "calls_since w (snd (handler cfg rid ev w)) = [DbLock (ev_cache_key ev) rid]"
      by (rule handler_not_locked)
    then show False using assms by simp
  qed
  show "\<exists>b. loaded w (ev_cache_key ev) = Inr b \<and> status b = JNull"
    using assms handler_no_submission by blast
qed

text \<open>Once the record tells of a submitted job.\<close>

lemma submission_for_inj:
  "submission_for cfg k c \<Longrightarrow> submission_for cfg k' c \<Longrightarrow> k' = k"
  by (cases c) (simp_all add: input_key_def split: option.splits)

lemma fair_keeps_record: "fair (\<lambda>c. \<not> submission_for cfg k c) (keeps_record k)"
  unfolding fair_def
proof (intro conjI allI impI)
  show "reflp (keeps_record k)"
    by (simp add: reflp_def keeps_record_def)
  show "transp (keeps_record k)"
  proof (rule transpI)
    fix x y z :: "string \<Rightarrow> json option"
    assume "keeps_record k x y" and "keeps_record k y z"
    then show "keeps_record k x z"
      unfolding keeps_record_def by (elim disjE) simp_all
  qed
  show "\<And>c. routine c \<Longrightarrow> \<not> submission_for cfg k c"
    subgoal for c by (cases c) simp_all
    done
qed

lemma put_ok_keeps_record:
  assumes "job_id b \<noteq> JNull" and "status b \<noteq> JNull"
  shows "put_ok (\<lambda>c. \<not> submission_for cfg k c) (keeps_record k) d (state_dict b)"
  using assms by (auto simp add: put_ok_def keeps_record_def)

lemma record_kept:
  assumes "keeps_record k (stored w) (stored w')"
      and "loaded w k = Inr b" and "job_id b \<noteq> JNull" and "status b \<noteq> JNull"
  shows "\<exists>b'. loaded w' k = Inr b' \<and> job_id b' \<noteq> JNull \<and> status b' \<noteq> JNull"
  using assms(1) unfolding keeps_record_def
proof (elim disjE exE conjE)
  assume "stored w' k = stored w k"
  then have "loaded w' k = loaded w k" by (simp add: loaded_def)
  then show ?thesis using assms(2,3,4) by simp
next
  fix b0
  assume "stored w' k = Some (JObj (state_dict b0))" and "job_id b0 \<noteq> JNull" and "status b0 \<noteq> JNull"
  then show ?thesis
    by (simp add: loaded_def info_of_def state_dict_reload) (simp add: state_dict_def)
qed

lemma handler_keeps_record:
  assumes "loaded w k = Inr b" and "job_id b \<noteq> JNull" and "status b \<noteq> JNull"
      and "\<not> env_truthy (DELETE_DYNAMO_ON_FAIL cfg)"
  shows "evolves (\<lambda>c. \<not> submission_for cfg k c) (keeps_record k) w (snd (handler cfg rid ev w))"
proof (rule handler_evolves [OF fair_keeps_record])
  show "\<And>b'. job_id b' \<noteq> JNull \<Longrightarrow> status b' \<noteq> JNull \<Longrightarrow>
          put_ok (\<lambda>c. \<not> submission_for cfg k c) (keeps_record k)
            \<lparr>d_cache_key = ev_cache_key ev, run_id = rid\<rparr> (state_dict b')"
    by (rule put_ok_keeps_record)
  show "env_truthy (DELETE_DYNAMO_ON_FAIL cfg) \<Longrightarrow>
          delete_ok (keeps_record k) \<lparr>d_cache_key = ev_cache_key ev, run_id = rid\<rparr>"
    using assms(4) by simp
  show "\<And>b' c. loaded w (ev_cache_key ev) = Inr b' \<Longrightarrow> status b' = JNull \<Longrightarrow>
          submission_for cfg (ev_cache_key ev) c \<Longrightarrow> \<not> submission_for cfg k c"
  proof
    fix b' c
    assume l: "loaded w (ev_cache_key ev) = Inr b'" and s: "status b' = JNull"
      and 1: "submission_for cfg (ev_cache_key ev) c" and 2: "submission_for cfg k c"
    have "k = ev_cache_key ev" using 1 2 by (rule submission_for_inj)
    then show False using l s assms(1,3) by simp
  qed
  show "\<And>b'. loaded w (ev_cache_key ev) = Inr b' \<Longrightarrow> status b' = JStr SUCCESS_STATE \<Longrightarrow>
          put_ok (\<lambda>c. \<not> submission_for cfg k c) (keeps_record k)
            \<lparr>d_cache_key = ev_cache_key ev, run_id = rid\<rparr> (state_dict b')"
  proof -
    fix b'
    assume l: "loaded w (ev_cache_key ev) = Inr b'" and s: "status b' = JStr SUCCESS_STATE"
    show "put_ok (\<lambda>c. \<not> submission_for cfg k c) (keeps_record k)
            \<lparr>d_cache_key = ev_cache_key ev, run_id = rid\<rparr> (state_dict b')"
    proof (cases "ev_cache_key ev = k")
      case True
      then have "b' = b" using l assms(1) by simp
      then show ?thesis using assms(2,3) by (simp add: put_ok_keeps_record)
    next
      case False
      then show ?thesis by (simp add: put_ok_def keeps_record_def)
    qed
  qed
qed

lemma run_keeps_record:
  assumes "\<not> env_truthy (DELETE_DYNAMO_ON_FAIL cfg)"
  shows "loaded w k = Inr b \<Longrightarrow> job_id b \<noteq> JNull \<Longrightarrow> status b \<noteq> JNull \<Longrightarrow>
         evolves (\<lambda>c. \<not> submission_for cfg k c) (keeps_record k) w (run cfg xs w)"
proof (induction xs arbitrary: w b)
  case Nil
  show ?case by (simp add: evolves_refl [OF fair_keeps_record])
next
  case (Cons x xs)
  show ?case
  proof (cases x)
    case (Invoke rid ev)
    let ?w1 = "snd (handler cfg rid ev w)"
    have e1: "evolves (\<lambda>c. \<not> submission_for cfg k c) (keeps_record k) w ?w1"
      using Cons.prems assms by (rule handler_keeps_record)
    obtain b1 where "loaded ?w1 k = Inr b1" "job_id b1 \<noteq> JNull" "status b1 \<noteq> JNull"
      using record_kept [OF evolves_stored [OF e1] Cons.prems] by blast
    then have "evolves (\<lambda>c. \<not> submission_for cfg k c) (keeps_record k) ?w1 (run cfg xs ?w1)"
      by (rule Cons.IH)
    then show ?thesis
      using Invoke evolves_trans [OF fair_keeps_record e1] by simp
  next
    case (Outside e)
    let ?w1 = "e\<lparr>table := table w, trace := trace w\<rparr>"
    have e1: "evolves (\<lambda>c. \<not> submission_for cfg k c) (keeps_record k) w ?w1"
      by (rule evolves_outside [OF fair_keeps_record])
    obtain b1 where "loaded ?w1 k = Inr b1" "job_id b1 \<noteq> JNull" "status b1 \<noteq> JNull"
      using record_kept [OF evolves_stored [OF e1] Cons.prems] by blast
    then have "evolves (\<lambda>c. \<not> submission_for cfg k c) (keeps_record k) ?w1 (run cfg xs ?w1)"
      by (rule Cons.IH)
    then show ?thesis
      using Outside evolves_trans [OF fair_keeps_record e1] by simp
  qed
qed

lemma recorded_iff:
  "recorded w k = (\<exists>b. loaded w k = Inr b \<and> job_id b \<noteq> JNull \<and> status b \<noteq> JNull)"
  by (simp add: recorded_def split: sum.splits)

lemma submits_for_submission: "submits_for k c \<Longrightarrow> submission_for cfg k c"
  by (cases c) simp_all

lemma recorded_stays:
  assumes "\<not> env_truthy (DELETE_DYNAMO_ON_FAIL cfg)" and "recorded w k"
  shows "filter (submission_for cfg k) (calls_since w (run cfg xs w)) = [] \<and>
         recorded (run cfg xs w) k"
proof -
  obtain b where b: "loaded w k = Inr b" "job_id b \<noteq> JNull" "status b \<noteq> JNull"
    using assms(2) recorded_iff by blast
  have e: "evolves (\<lambda>c. \<not> submission_for cfg k c) (keeps_record k) w (run cfg xs w)"
    using assms(1) b by (rule run_keeps_record)
  have "filter (submission_for cfg k) (calls_since w (run cfg xs w)) = []"
    using evolves_calls [OF e] by (rule list_all_not_filter)
  moreover have "recorded (run cfg xs w) k"
    using record_kept [OF evolves_stored [OF e] b] recorded_iff by blast
  ultimately show ?thesis by simp
qed

text \<open>One invocation submits at most one job.\<close>

lemma fair_no_submit: "fair (\<lambda>c. \<not> is_submit c) (\<lambda>f f'. True)"
proof -
  have "\<And>c. routine c \<Longrightarrow> \<not> is_submit c"
    subgoal for c by (cases c) simp_all
    done
  then show ?thesis
    by (simp add: fair_def reflp_def transp_def)
qed

lemma once_quiet:
  "evolves (\<lambda>c. \<not> is_submit c) S w w' \<Longrightarrow> once w w'"
proof -
  assume "evolves (\<lambda>c. \<not> is_submit c) S w w'"
  then obtain cs where cs: "trace w' = trace w @ cs" "list_all (\<lambda>c. \<not> is_submit c) cs"
    by (auto simp add: evolves_def)
  have "filter is_submit cs = []"
    using cs(2) by (rule list_all_not_filter)
  then show ?thesis
    using cs(1) by (auto simp add: once_def)
qed

lemma quiet_then_once:
  assumes "evolves (\<lambda>c. \<not> is_submit c) S a b" and "once b c"
  shows "once a c"
proof -
  obtain cs where cs: "trace b = trace a @ cs" "list_all (\<lambda>c. \<not> is_submit c) cs"
    using assms(1) by (auto simp add: evolves_def)
  obtain ds where ds: "trace c = trace b @ ds" "length (filter is_submit ds) \<le> 1"
    using assms(2) by (auto simp add: once_def)
  have "filter is_submit cs = []"
    using cs(2) by (rule list_all_not_filter)
  then have "trace c = trace a @ (cs @ ds) \<and> length (filter is_submit (cs @ ds)) \<le> 1"
    using cs(1) ds by simp
  then show ?thesis
    unfolding once_def by blast
qed

lemma once_then_quiet:
  assumes "once a b" and "evolves (\<lambda>c. \<not> is_submit c) S b c"
  shows "once a c"
proof -
  obtain cs where cs: "trace b = trace a @ cs" "length (filter is_submit cs) \<le> 1"
    using assms(1) by (auto simp add: once_def)
  obtain ds where ds: "trace c = trace b @ ds" "list_all (\<lambda>c. \<not> is_submit c) ds"
    using assms(2) by (auto simp add: evolves_def)
  have "filter is_submit ds = []"
    using ds(2) by (rule list_all_not_filter)
  then have "trace c = trace a @ (cs @ ds) \<and> length (filter is_submit (cs @ ds)) \<le> 1"
    using cs ds(1) by simp
  then show ?thesis
    unfolding once_def by blast
qed

lemma steps_once_quiet: "steps (evolves (\<lambda>c. \<not> is_submit c) S) m \<Longrightarrow> steps once m"
  by (auto simp add: steps_def intro: once_quiet)

lemma steps_once_after:
  assumes "steps (evolves (\<lambda>c. \<not> is_submit c) S) m" and "\<And>x. steps once (f x)"
  shows "steps once (bnd m f)"
proof (rule stepsI)
  fix w
  obtain r w' where m: "m w = (r, w')" by (cases "m w")
  have 1: "evolves (\<lambda>c. \<not> is_submit c) S w w'" using stepsD [OF assms(1), of w] m by simp
  show "once w (snd (bnd m f w))"
  proof (cases r)
    case (Inl e)
    then show ?thesis using m once_quiet [OF 1] by (simp add: bnd_def)
  next
    case (Inr x)
    have "once w' (snd (f x w'))" using assms(2) by (rule stepsD)
    then show ?thesis using Inr m quiet_then_once [OF 1] by (simp add: bnd_def)
  qed
qed

lemma steps_once_before:
  assumes "steps once m" and "\<And>x. steps (evolves (\<lambda>c. \<not> is_submit c) S) (f x)"
  shows "steps once (bnd m f)"
proof (rule stepsI)
  fix w
  obtain r w' where m: "m w = (r, w')" by (cases "m w")
  have 1: "once w w'" using stepsD [OF assms(1), of w] m by simp
  show "once w (snd (bnd m f w))"
  proof (cases r)
    case (Inl e)
    then show ?thesis using m 1 by (simp add: bnd_def)
  next
    case (Inr x)
    have "evolves (\<lambda>c. \<not> is_submit c) S w' (snd (f x w'))" using assms(2) by (rule stepsD)
    then show ?thesis using Inr m once_then_quiet [OF 1] by (simp add: bnd_def)
  qed
qed

lemma steps_once_submit_job: "steps once (submit_job name queue jd)"
proof (rule stepsI)
  fix w
  have "trace (snd (submit_job name queue jd w)) = trace w @ [BatchSubmit name queue jd]"
    by (simp add: submit_job_def bnd_def request_def Let_def split: option.splits)
  then show "once w (snd (submit_job name queue jd w))"
    by (simp add: once_def)
qed

lemma steps_once_submit: "steps once (submit cfg b dump script img requirements)"
proof -
  note f = fair_no_submit
  have last: "steps once
                (bnd (submit_job name queue jd)
                   (\<lambda>jid. return (b1\<lparr>job_id := JStr jid, status := JStr ''submitted''\<rparr>)))"
    for name queue jd and b1 :: batch
    by (rule steps_once_before [where S = "\<lambda>f f'. True", OF steps_once_submit_job])
      (rule steps_return [OF f])
  show ?thesis
    unfolding submit_def
    by (intro steps_once_after [where S = "\<lambda>f f'. True"] last steps_s3_put steps_lift
        steps_create_job_def steps_client_method steps_string_param f) simp_all
qed

lemma steps_once_submission: "steps once (submission cfg d ev b)"
proof -
  note f = fair_no_submit
  have p: "put_ok (\<lambda>c. \<not> is_submit c) (\<lambda>f f'. True) d ob" for ob
    by (simp add: put_ok_def)
  have last: "steps once
          (bnd (submit cfg b (ev_dump ev) (fst args) (fst (snd args)) (snd (snd args)))
            (\<lambda>b1. bnd (put d (state_dict b1))
                     (\<lambda>ok. return [(''status'', JInt 201),
                                    (''message'', JStr ''job created and submitted''),
                                    (''dump'', JNull)])))" for args :: "json \<times> json \<times> json"
    by (rule steps_once_before [where S = "\<lambda>f f'. True", OF steps_once_submit])
      (intro steps_bnd steps_put steps_return f p)
  show ?thesis
    unfolding submission_def
    by (intro steps_once_after [where S = "\<lambda>f f'. True"] last steps_lift f)
qed

lemma steps_once_handler_body: "steps once (handler_body cfg d ev)"
proof -
  note f = fair_no_submit
  have p: "put_ok (\<lambda>c. \<not> is_submit c) (\<lambda>f f'. True) d ob" for ob
    by (simp add: put_ok_def)
  have dl: "delete_ok (\<lambda>f f'. True) d"
    by (simp add: delete_ok_def)
  have branches: "steps once
                (if status b = JNull then submission cfg d ev b
                 else if status b = JStr SUCCESS_STATE then success_pipeline cfg d b
                 else polling cfg d b)" for b
    by (intro steps_if steps_once_submission
        steps_once_quiet [OF steps_success_pipeline [OF f p]]
        steps_once_quiet [OF steps_polling [OF f p dl]])
  show ?thesis
    unfolding handler_body_def
    by (intro steps_once_after [where S = "\<lambda>f f'. True"] branches steps_get steps_lift f)
qed

lemma handler_once: "once w (snd (handler cfg rid ev w))"
proof -
  let ?d = "\<lparr>d_cache_key = ev_cache_key ev, run_id = rid\<rparr>"
  note f = fair_no_submit
  obtain rl w1 where l: "lock ?d None w = (rl, w1)" by (cases "lock ?d None w")
  have e1: "evolves (\<lambda>c. \<not> is_submit c) (\<lambda>f f'. True) w w1"
    using stepsD [OF steps_lock [OF f], of w ?d None] l by simp
  show ?thesis
  proof (cases "rl = Inr True")
    case False
    then have "snd (handler cfg rid ev w) = w1"
      using l by (cases rl) (auto simp add: handler_def bnd_def return_def)
    then show ?thesis using once_quiet [OF e1] by simp
  next
    case True
    let ?w2 = "snd (handler_body cfg ?d ev w1)"
    have e2: "once w1 ?w2"
      by (rule stepsD [OF steps_once_handler_body])
    have e3: "evolves (\<lambda>c. \<not> is_submit c) (\<lambda>f f'. True) ?w2 (snd (unlock ?d None ?w2))"
      by (rule stepsD [OF steps_unlock [OF f]])
    have "snd (handler cfg rid ev w) = snd (unlock ?d None ?w2)"
      using l True by (simp add: handler_def bnd_def snd_try_finally snd_try_except_return)
    then show ?thesis
      using quiet_then_once [OF e1 once_then_quiet [OF e2 e3]] by simp
  qed
qed

lemma filter_length_mono:
  "(\<And>x. P x \<Longrightarrow> Q x) \<Longrightarrow> length (filter P xs) \<le> length (filter Q xs)"
  by (induction xs) auto

lemma submits_for_is_submit: "submits_for k c \<Longrightarrow> is_submit c"
  by (cases c) simp_all

lemma handler_at_most_one:
  "length (filter (submits_for k) (calls_since w (snd (handler cfg rid ev w)))) \<le> 1"
proof -
  obtain cs where cs: "trace (snd (handler cfg rid ev w)) = trace w @ cs"
    "length (filter is_submit cs) \<le> 1"
    using handler_once [of w cfg rid ev] by (auto simp add: once_def)
  have "length (filter (submits_for k) cs) \<le> length (filter is_submit cs)"
    by (rule filter_length_mono) (rule submits_for_is_submit)
  then show ?thesis
    using cs by (simp add: calls_since_def)
qed

lemma run_trace: "\<exists>cs. trace (run cfg xs w) = trace w @ cs"
  using run_engine_writes [of w cfg xs] by (auto simp add: evolves_def)

lemma handler_trace: "\<exists>cs. trace (snd (handler cfg rid ev w)) = trace w @ cs"
  using handler_once [of w cfg rid ev] by (auto simp add: once_def)

lemma calls_since_append:
  assumes "\<exists>cs. trace b = trace a @ cs" and "\<exists>ds. trace c = trace b @ ds"
  shows "calls_since a c = calls_since a b @ calls_since b c"
  using assms by (auto simp add: calls_since_def)

lemma run_at_most_once:
  assumes "\<not> env_truthy (DELETE_DYNAMO_ON_FAIL cfg)"
  shows "submissions_recorded cfg k xs w \<Longrightarrow>
         length (filter (submits_for k) (calls_since w (run cfg xs w))) \<le> 1"
proof (induction xs arbitrary: w)
  case Nil
  show ?case by (simp add: calls_since_def)
next
  case (Cons x xs)
  show ?case
  proof (cases x)
    case (Invoke rid ev)
    let ?w1 = "snd (handler cfg rid ev w)"
    have sr: "submissions_recorded cfg k xs ?w1"
      and d: "filter (submits_for k) (calls_since w ?w1) = [] \<or> recorded ?w1 k"
      using Cons.prems Invoke by simp_all
    have split: "calls_since w (run cfg xs ?w1) = calls_since w ?w1 @ calls_since ?w1 (run cfg xs ?w1)"
      by (rule calls_since_append [OF handler_trace run_trace])
    have rest: "length (filter (submits_for k) (calls_since ?w1 (run cfg xs ?w1))) \<le> 1"
      using sr by (rule Cons.IH)
    from d show ?thesis
    proof
      assume "filter (submits_for k) (calls_since w ?w1) = []"
      then show ?thesis using Invoke split rest by simp
    next
      assume "recorded ?w1 k"
      then have "filter (submission_for cfg k) (calls_since ?w1 (run cfg xs ?w1)) = []"
        using recorded_stays [OF assms] by blast
      then have "list_all (\<lambda>c. \<not> submission_for cfg k c) (calls_since ?w1 (run cfg xs ?w1))"
        by (simp add: filter_empty_conv list_all_iff)
      then have "list_all (\<lambda>c. \<not> submits_for k c) (calls_since ?w1 (run cfg xs ?w1))"
        by (auto simp add: list_all_iff dest: submits_for_submission)
      then have "filter (submits_for k) (calls_since ?w1 (run cfg xs ?w1)) = []"
        by (rule list_all_not_filter)
      then show ?thesis
        using Invoke split handler_at_most_one [of k w cfg rid ev] by simp
    qed
  next
    case (Outside e)
    let ?w1 = "e\<lparr>table := table w, trace := trace w\<rparr>"
    have "submissions_recorded cfg k xs ?w1"
      using Cons.prems Outside by simp
    then have "length (filter (submits_for k) (calls_since ?w1 (run cfg xs ?w1))) \<le> 1"
      by (rule Cons.IH)
    moreover have "calls_since ?w1 (run cfg xs ?w1) = calls_since w (run cfg xs ?w1)"
      by (simp add: calls_since_def)
    ultimately show ?thesis using Outside by simp
  qed
qed


text \<open>An invocation whose requests are all answered.\<close>

lemma submit_outcome:
  assumes "\<forall>n. faults w n = None"
  shows "case submit cfg b dump script img req w of
           (Inl e, w') \<Rightarrow> filter is_submit (calls_since w w') = []
         | (Inr b1, w') \<Rightarrow> table w' = table w \<and> faults w' = faults w \<and> clock w' = clock w \<and>
                (\<exists>cs. trace w' = trace w @ cs) \<and>
                job_id b1 \<noteq> JNull \<and> status b1 = JStr ''submitted''"
  using assms
  by (auto simp add: submit_def s3_put_def put_object_def create_job_def_def
      register_job_definition_def client_method_def string_param_def submit_job_def
      io_defs calls_since_def
      split: sum.splits option.splits json.splits prod.splits)

lemma submission_outcome:
  assumes nf: "\<forall>n. faults w n = None"
      and own: "owner_condition (run_id d) (table w (d_cache_key d))"
  shows "case submission cfg d ev b w of
           (Inl e, w') \<Rightarrow> filter is_submit (calls_since w w') = [] \<and> (\<exists>cs. trace w' = trace w @ cs)
         | (Inr resp, w') \<Rightarrow>
             resp = [(''status'', JInt 201), (''message'', JStr ''job created and submitted''),
                     (''dump'', JNull)] \<and>
             (\<exists>b1. stored w' (d_cache_key d) = Some (JObj (state_dict b1)) \<and>
                    job_id b1 \<noteq> JNull \<and> status b1 = JStr ''submitted'') \<and>
             faults w' = faults w \<and> (\<exists>cs. trace w' = trace w @ cs) \<and>
             owner_condition (run_id d) (table w' (d_cache_key d))"
proof (cases "last_values (ev_kwargs ev)")
  case (Inl e)
  then show ?thesis
    by (simp add: submission_def bnd_def lift_def calls_since_def)
next
  case kw0: (Inr kw0)
  show ?thesis
  proof (cases "submit_args (if ''requirements'' \<in> set (map fst kw0) then kw0
                             else dict_set kw0 ''requirements'' (JObj []))")
    case (Inl e)
    then show ?thesis
      using kw0 by (simp add: submission_def bnd_def lift_def calls_since_def)
  next
    case args: (Inr args)
    obtain r w2 where sub: "submit cfg b (ev_dump ev) (fst args) (fst (snd args)) (snd (snd args)) w
                              = (r, w2)"
      by (cases "submit cfg b (ev_dump ev) (fst args) (fst (snd args)) (snd (snd args)) w")
    have body: "submission cfg d ev b w =
                  (case r of
                     Inl e \<Rightarrow> (Inl e, w2)
                   | Inr b1 \<Rightarrow>
                       bnd (put d (state_dict b1))
                         (\<lambda>ok. return [(''status'', JInt 201),
                                        (''message'', JStr ''job created and submitted''),
                                        (''dump'', JNull)]) w2)"
      using kw0 args sub by (simp add: submission_def bnd_def lift_def split: sum.splits)
    show ?thesis
    proof (cases r)
      case (Inl e)
      have "filter is_submit (calls_since w w2) = []"
        using submit_outcome [OF nf, of cfg b "ev_dump ev" "fst args" "fst (snd args)" "snd (snd args)"]
          sub Inl by simp
      moreover have "\<exists>cs. trace w2 = trace w @ cs"
        using stepsD [OF steps_once_submit, of w cfg b "ev_dump ev" "fst args" "fst (snd args)"
            "snd (snd args)"] sub
        by (auto simp add: once_def)
      ultimately show ?thesis
        using body Inl by simp
    next
      case (Inr b1)
      have o: "table w2 = table w" "faults w2 = faults w" "clock w2 = clock w"
        "\<exists>cs. trace w2 = trace w @ cs" "job_id b1 \<noteq> JNull" "status b1 = JStr ''submitted''"
        using submit_outcome [OF nf, of cfg b "ev_dump ev" "fst args" "fst (snd args)" "snd (snd args)"]
          sub Inr by simp_all
      obtain row where row: "table w (d_cache_key d) = Some row" "lock_key row = Some (run_id d)"
        using own by (auto simp add: owner_condition_def split: option.splits)
      have lc: "lock_condition (run_id d) (clock w2 - TIMEOUT) (table w2 (d_cache_key d))"
        using row o(1) by (simp add: lock_condition_def)
      have nf2: "faults w2 (length (trace w2)) = None"
        using nf o(2) by simp
      have p: "put d (state_dict b1) w2 =
                 (Inr True,
                  w2\<lparr>trace := trace w2 @ [DbPut (d_cache_key d) (run_id d) (JObj (state_dict b1))],
                     table := (table w2)(d_cache_key d \<mapsto>
                       row\<lparr>lock_key := Some (run_id d), update_time := Some (clock w2),
                           obj := Some (JObj (state_dict b1))\<rparr>)\<rparr>)"
        using lc nf2 row o(1) by (simp add: put_unfold)
      show ?thesis
        using body Inr p o nf by (auto simp add: bnd_def return_def stored_def owner_condition_def)
    qed
  qed
qed

lemma is_submit_submission: "is_submit c \<Longrightarrow> is_submission c"
  by (cases c) simp_all

lemma filter_mono_nonempty:
  "(\<And>x. P x \<Longrightarrow> Q x) \<Longrightarrow> filter P xs \<noteq> [] \<Longrightarrow> filter Q xs \<noteq> []"
  by (auto simp add: filter_empty_conv)

lemma handler_submitted_recorded:
  assumes nf: "\<forall>n. faults w n = None"
      and sent: "filter is_submit (calls_since w (snd (handler cfg rid ev w))) \<noteq> []"
  shows "fst (handler cfg rid ev w) =
           Inr [(''status'', JInt 201), (''message'', JStr ''job created and submitted''),
                (''dump'', JNull)] \<and>
         recorded (snd (handler cfg rid ev w)) (ev_cache_key ev) \<and>
         lock_owner (snd (handler cfg rid ev w)) (ev_cache_key ev) = None"
proof -
  let ?k = "ev_cache_key ev"
  let ?d = "\<lparr>d_cache_key = ?k, run_id = rid\<rparr>"
  have "filter is_submission (calls_since w (snd (handler cfg rid ev w))) \<noteq> []"
    using sent by (rule filter_mono_nonempty [rotated]) (rule is_submit_submission)
  then have locked: "fst (lock ?d None w) = Inr True"
    and "\<exists>b. loaded w ?k = Inr b \<and> status b = JNull"
    using submission_guarded by blast+
  then obtain b where ld: "loaded w ?k = Inr b" and st: "status b = JNull"
    by blast
  define row where "row = (case table w ?k of None \<Rightarrow> empty_row | Some r \<Rightarrow> r)"
  define w1 where "w1 = w\<lparr>trace := trace w @ [DbLock ?k rid],
                          table := (table w)(?k \<mapsto> row\<lparr>lock_key := Some rid, update_time := Some (clock w)\<rparr>)\<rparr>"
  have l: "lock ?d None w = (Inr True, w1)"
    using locked nf unfolding w1_def row_def
    by (simp add: lock_unfold key_or_def split: if_splits)
  have obj_row: "obj row = stored w ?k"
    by (simp add: row_def stored_def empty_row_def split: option.splits)
  define w2 where "w2 = w1\<lparr>trace := trace w1 @ [DbGet ?k]\<rparr>"
  have g: "get ?d w1 = (Inr (stored w ?k), w2)"
    using nf obj_row unfolding w2_def w1_def by (simp add: get_unfold)
  obtain info where info: "info_of (stored w ?k) = Inr info" and b: "Batch ?k info = Inr b"
    using ld by (auto simp add: loaded_def split: sum.splits)
  have body: "handler_body cfg ?d ev w1 = submission cfg ?d ev b w2"
    using g info b st by (simp add: handler_body_def bnd_def lift_def)
  have nf2: "\<forall>n. faults w2 n = None"
    using nf by (simp add: w2_def w1_def)
  have own2: "owner_condition (run_id ?d) (table w2 (d_cache_key ?d))"
    by (simp add: w2_def w1_def owner_condition_def)
  have t2: "trace w2 = trace w @ [DbLock ?k rid, DbGet ?k]"
    by (simp add: w2_def w1_def)
  obtain r w3 where s: "submission cfg ?d ev b w2 = (r, w3)"
    by (cases "submission cfg ?d ev b w2")
  have out: "case (r, w3) of
           (Inl e, w') \<Rightarrow> filter is_submit (calls_since w2 w') = [] \<and> (\<exists>cs. trace w' = trace w2 @ cs)
         | (Inr resp, w') \<Rightarrow>
             resp = [(''status'', JInt 201), (''message'', JStr ''job created and submitted''),
                     (''dump'', JNull)] \<and>
             (\<exists>b1. stored w' (d_cache_key ?d) = Some (JObj (state_dict b1)) \<and>
                    job_id b1 \<noteq> JNull \<and> status b1 = JStr ''submitted'') \<and>
             faults w' = faults w2 \<and> (\<exists>cs. trace w' = trace w2 @ cs) \<and>
             owner_condition (run_id ?d) (table w' (d_cache_key ?d))"
    using submission_outcome [OF nf2 own2, of cfg ev b] s by simp
  have h: "handler cfg rid ev w =
             try_finally (try_except (\<lambda>w. (r, w3))
                 (\<lambda>e. return [(''status'', JInt 400), (''message'', JStr (str_error e)), (''dump'', JNull)]))
               (unlock ?d None) w1"
    using l body s by (simp add: handler_def bnd_def try_finally_def try_except_def)
  have tr: "trace (snd (handler cfg rid ev w)) = trace w3 @ [DbUnlock ?k rid]"
    using h unlock_trace [of ?d None w3]
    by (cases r) (simp_all add: snd_try_finally try_except_def return_def key_or_def)
  show ?thesis
  proof (cases r)
    case (Inl e)
    then obtain cs where cs: "trace w3 = trace w2 @ cs" "filter is_submit (calls_since w2 w3) = []"
      using out by auto
    then have "filter is_submit (calls_since w (snd (handler cfg rid ev w))) = []"
      using tr t2 by (simp add: calls_since_def)
    then show ?thesis using sent by simp
  next
    case (Inr resp)
    then obtain b1 where resp: "resp = [(''status'', JInt 201), (''message'', JStr ''job created and submitted''),
                     (''dump'', JNull)]"
      and b1: "stored w3 ?k = Some (JObj (state_dict b1))" "job_id b1 \<noteq> JNull"
              "status b1 = JStr ''submitted''"
      and f3: "faults w3 = faults w2"
      and own3: "owner_condition rid (table w3 ?k)"
      using out by auto
    obtain row3 where row3: "table w3 ?k = Some row3" "lock_key row3 = Some rid"
      using own3 by (auto simp add: owner_condition_def split: option.splits)
    have nf3: "faults w3 (length (trace w3)) = None"
      using f3 nf2 by simp
    have u: "unlock ?d None w3 =
               (Inr True, w3\<lparr>trace := trace w3 @ [DbUnlock ?k rid],
                             table := (table w3)(?k \<mapsto> row3\<lparr>lock_key := None, update_time := Some (clock w3)\<rparr>)\<rparr>)"
      using nf3 row3 by (simp add: unlock_unfold key_or_def owner_condition_def)
    have res: "handler cfg rid ev w =
                 (Inr resp, w3\<lparr>trace := trace w3 @ [DbUnlock ?k rid],
                             table := (table w3)(?k \<mapsto> row3\<lparr>lock_key := None, update_time := Some (clock w3)\<rparr>)\<rparr>)"
      using h u Inr by (simp add: try_finally_def try_except_def)
    have "stored (snd (handler cfg rid ev w)) ?k = Some (JObj (state_dict b1))"
      using res b1(1) row3 by (simp add: stored_def)
    then have "loaded (snd (handler cfg rid ev w)) ?k =
                 Inr \<lparr>cache_key = ?k, job_id = job_id b1, job_def = job_def b1, status = status b1,
                      iters = JInt 0, client = None\<rparr>"
      by (simp add: loaded_def info_of_def state_dict_reload) (simp add: state_dict_def)
    then have "recorded (snd (handler cfg rid ev w)) ?k"
      using b1 by (simp add: recorded_def)
    moreover have "lock_owner (snd (handler cfg rid ev w)) ?k = None"
      using res by (simp add: lock_owner_def)
    ultimately show ?thesis
      using res resp by simp
  qed
qed


text \<open>No operation changes how the services will answer.\<close>

lemma same_bnd:
  assumes "steps same_faults m" and "\<And>x. steps same_faults (f x)"
  shows "steps same_faults (bnd m f)"
proof (rule stepsI)
  fix w
  obtain r w' where m: "m w = (r, w')" by (cases "m w")
  have 1: "same_faults w w'" using stepsD [OF assms(1), of w] m by simp
  show "same_faults w (snd (bnd m f w))"
  proof (cases r)
    case (Inl e)
    then show ?thesis using m 1 by (simp add: bnd_def)
  next
    case (Inr x)
    have "same_faults w' (snd (f x w'))" using assms(2) by (rule stepsD)
    then show ?thesis using Inr m 1 by (simp add: bnd_def same_faults_def)
  qed
qed

lemma same_try_except:
  assumes "steps same_faults m" and "\<And>e. steps same_faults (h e)"
  shows "steps same_faults (try_except m h)"
proof (rule stepsI)
  fix w
  obtain r w' where m: "m w = (r, w')" by (cases "m w")
  have 1: "same_faults w w'" using stepsD [OF assms(1), of w] m by simp
  show "same_faults w (snd (try_except m h w))"
  proof (cases r)
    case (Inr x)
    then show ?thesis using m 1 by (simp add: try_except_def)
  next
    case (Inl e)
    have "same_faults w' (snd (h e w'))" using assms(2) by (rule stepsD)
    then show ?thesis using Inl m 1 by (simp add: try_except_def same_faults_def)
  qed
qed

lemma same_try_finally:
  assumes "steps same_faults m" and "steps same_faults f"
  shows "steps same_faults (try_finally m f)"
proof (rule stepsI)
  fix w
  have 1: "same_faults w (snd (m w))" using assms(1) by (rule stepsD)
  have 2: "same_faults (snd (m w)) (snd (f (snd (m w))))" using assms(2) by (rule stepsD)
  show "same_faults w (snd (try_finally m f w))"
    using 1 2 by (simp add: snd_try_finally same_faults_def)
qed

lemma same_return: "steps same_faults (return x)"
  by (simp add: steps_def return_def same_faults_def)

lemma same_raise: "steps same_faults (raise e)"
  by (simp add: steps_def raise_def same_faults_def)

lemma same_lift: "steps same_faults (lift r)"
  by (simp add: steps_def lift_def same_faults_def)

lemma same_lock: "steps same_faults (lock d key)"
  by (simp add: steps_def same_faults_def lock_unfold split: option.splits error.splits)

lemma same_unlock: "steps same_faults (unlock d key)"
  by (simp add: steps_def same_faults_def unlock_unfold split: option.splits error.splits)

lemma same_put: "steps same_faults (put d ob)"
  by (simp add: steps_def same_faults_def put_unfold split: option.splits error.splits)

lemma same_get: "steps same_faults (get d)"
  by (simp add: steps_def same_faults_def get_unfold split: option.splits)

lemma same_delete: "steps same_faults (delete d)"
  by (simp add: steps_def same_faults_def delete_unfold split: option.splits)

lemma same_head_object: "steps same_faults (head_object key)"
  by (simp add: steps_def same_faults_def head_object_def bnd_def request_def split: option.splits)

lemma same_get_object: "steps same_faults (get_object key)"
  by (simp add: steps_def same_faults_def get_object_def bnd_def request_def split: option.splits)

lemma same_put_object: "steps same_faults (put_object key body)"
  by (simp add: steps_def same_faults_def put_object_def bnd_def request_def split: option.splits)

lemma same_register_job_definition: "steps same_faults (register_job_definition cfg name props)"
  by (simp add: steps_def same_faults_def register_job_definition_def bnd_def request_def
      raise_def Let_def split: option.splits)

lemma same_submit_job: "steps same_faults (submit_job name queue jd)"
  by (simp add: steps_def same_faults_def submit_job_def bnd_def request_def Let_def
      split: option.splits)

lemma same_describe_jobs: "steps same_faults (describe_jobs jid)"
  by (simp add: steps_def same_faults_def describe_jobs_def bnd_def request_def
      split: option.splits)

lemma same_deregister_job_definition: "steps same_faults (deregister_job_definition arn)"
  by (simp add: steps_def same_faults_def deregister_job_definition_def bnd_def request_def
      split: option.splits)

lemma same_client_method: "steps same_faults (client_method b name)"
  by (simp add: client_method_def same_return same_raise split: option.splits)

lemma same_string_param: "steps same_faults (string_param name v)"
  by (simp add: string_param_def same_return same_raise split: json.splits)

lemma same_s3_get: "steps same_faults (s3_get key)"
  unfolding s3_get_def
  by (intro same_bnd same_try_except same_head_object same_return)
    (simp_all add: same_return same_raise same_bnd same_get_object split: error.splits)

lemma same_s3_put: "steps same_faults (s3_put cfg data key)"
  unfolding s3_put_def
  by (intro same_bnd same_put_object same_return)

lemma same_gc: "steps same_faults (gc b)"
  unfolding gc_def
  by (intro same_bnd same_try_except same_client_method same_string_param
      same_deregister_job_definition)
    (simp_all add: same_return same_raise split: error.splits)

lemma same_create_job_def: "steps same_faults (create_job_def cfg b name props)"
  unfolding create_job_def_def
  by (intro same_bnd same_client_method same_register_job_definition same_return)

lemma same_update: "steps same_faults (update b)"
  unfolding update_def
  by (intro same_bnd same_client_method same_string_param same_describe_jobs)
    (simp_all add: same_return same_raise same_bnd same_lift split: list.splits)

lemma same_submit: "steps same_faults (submit cfg b dump script img requirements)"
  unfolding submit_def
  by (intro same_bnd same_s3_put same_lift same_create_job_def same_client_method
      same_string_param same_submit_job same_return)

lemma same_success_pipeline: "steps same_faults (success_pipeline cfg d b)"
  unfolding success_pipeline_def
  by (intro same_bnd steps_if same_gc same_return same_s3_get)
    (simp add: same_return same_raise same_bnd same_put split: option.splits json.splits)

lemma same_polling: "steps same_faults (polling cfg d b)"
  unfolding polling_def
  by (intro same_bnd steps_if same_update same_put same_return same_delete same_success_pipeline)

lemma same_submission: "steps same_faults (submission cfg d ev b)"
  unfolding submission_def
  by (intro same_bnd same_lift same_submit same_put same_return)

lemma same_handler_body: "steps same_faults (handler_body cfg d ev)"
  unfolding handler_body_def
  by (intro same_bnd steps_if same_get same_lift same_submission same_success_pipeline same_polling)

lemma same_handler: "steps same_faults (handler cfg rid ev)"
  unfolding handler_def
  by (intro same_bnd steps_if same_lock same_try_finally same_try_except same_handler_body
      same_unlock same_return)

lemma handler_faults: "faults (snd (handler cfg rid ev w)) = faults w"
  using stepsD [OF same_handler, of w cfg rid ev] by (simp add: same_faults_def)

text \<open>The jobs an invocation submits are those of its own cache key.\<close>

lemma fair_submits_own: "fair (\<lambda>c. is_submit c \<longrightarrow> submits_for k c) (\<lambda>f f'. True)"
proof -
  have "\<And>c. routine c \<Longrightarrow> is_submit c \<longrightarrow> submits_for k c"
    subgoal for c by (cases c) simp_all
    done
  then show ?thesis
    by (simp add: fair_def reflp_def transp_def)
qed

lemma handler_submits_own:
  "list_all (\<lambda>c. is_submit c \<longrightarrow> submits_for (ev_cache_key ev) c)
     (calls_since w (snd (handler cfg rid ev w)))"
proof -
  have "evolves (\<lambda>c. is_submit c \<longrightarrow> submits_for (ev_cache_key ev) c) (\<lambda>f f'. True) w
          (snd (handler cfg rid ev w))"
  proof (rule handler_evolves [OF fair_submits_own])
    show "\<And>b c. loaded w (ev_cache_key ev) = Inr b \<Longrightarrow> status b = JNull \<Longrightarrow>
            submission_for cfg (ev_cache_key ev) c \<Longrightarrow>
            is_submit c \<longrightarrow> submits_for (ev_cache_key ev) c"
      subgoal for b c by (cases c) simp_all
      done
  qed (simp_all add: put_ok_def delete_ok_def)
  then show ?thesis
    by (rule evolves_calls)
qed

lemma submits_for_inj: "submits_for k c \<Longrightarrow> submits_for k' c \<Longrightarrow> k' = k"
  by (cases c) simp_all

lemma handler_answered_recorded:
  assumes "\<forall>n. faults w n = None"
  shows "filter (submits_for k) (calls_since w (snd (handler cfg rid ev w))) = [] \<or>
         recorded (snd (handler cfg rid ev w)) k"
proof (cases "filter (submits_for k) (calls_since w (snd (handler cfg rid ev w))) = []")
  case True
  then show ?thesis by simp
next
  case False
  then obtain c where c: "c \<in> set (calls_since w (snd (handler cfg rid ev w)))" "submits_for k c"
    by (auto simp add: filter_empty_conv)
  have s: "is_submit c" using c(2) by (rule submits_for_is_submit)
  then have "submits_for (ev_cache_key ev) c"
    using handler_submits_own [of ev w cfg rid] c(1) by (auto simp add: list_all_iff)
  then have k: "ev_cache_key ev = k"
    using c(2) submits_for_inj by blast
  have "filter is_submit (calls_since w (snd (handler cfg rid ev w))) \<noteq> []"
    using c(1) s by (auto simp add: filter_empty_conv)
  then have "recorded (snd (handler cfg rid ev w)) (ev_cache_key ev)"
    using handler_submitted_recorded [OF assms] by blast
  then show ?thesis using k by simp
qed

lemma answered_submissions_recorded:
  "\<forall>n. faults w n = None \<Longrightarrow> answered xs \<Longrightarrow> submissions_recorded cfg k xs w"
proof (induction xs arbitrary: w)
  case Nil
  show ?case by simp
next
  case (Cons x xs)
  show ?case
  proof (cases x)
    case (Invoke rid ev)
    have "\<forall>n. faults (snd (handler cfg rid ev w)) n = None"
      using Cons.prems(1) by (simp add: handler_faults)
    moreover have "answered xs"
      using Cons.prems(2) Invoke by simp
    ultimately have "submissions_recorded cfg k xs (snd (handler cfg rid ev w))"
      by (rule Cons.IH)
    then show ?thesis
      using Invoke handler_answered_recorded [OF Cons.prems(1)] by simp
  next
    case (Outside e)
    have "\<forall>n. faults (e\<lparr>table := table w, trace := trace w\<rparr>) n = None"
      using Cons.prems(2) Outside by simp
    moreover have "answered xs"
      using Cons.prems(2) Outside by simp
    ultimately have "submissions_recorded cfg k xs (e\<lparr>table := table w, trace := trace w\<rparr>)"
      by (rule Cons.IH)
    then show ?thesis
      using Outside by simp
  qed
qed


text \<open>
  C4, as the code has it. An invocation sends a request of the submission branch (the
  upload of the input, the registration of the job definition, the submission of the job)
  only if it acquired the lock and the record it loaded has no status; and it sends at most
  one \<^verbatim>\<open>submit_job\<close> request. Where records of failed jobs are not deleted, a history
  sends at most one \<^verbatim>\<open>submit_job\<close> request for \<open>k\<close>, from any table, provided every
  invocation that sends one leaves the record of \<open>k\<close> telling of the job. An invocation
  whose requests are all answered does so: it returns status 201, the record tells of the
  job and the lock is released; hence a history in which every request is answered sends
  at most one. And once the record of \<open>k\<close> tells of a submitted job, no history sends
  a request of the submission branch for \<open>k\<close> again, and the record goes on telling of
  the job.
\<close>

theorem submission_guard:
  "(filter is_submission (calls_since w (snd (handler cfg rid ev w))) \<noteq> [] \<longrightarrow>
      fst (lock \<lparr>d_cache_key = ev_cache_key ev, run_id = rid\<rparr> None w) = Inr True \<and>
      (\<exists>b. loaded w (ev_cache_key ev) = Inr b \<and> status b = JNull))
   \<and> length (filter (submits_for k) (calls_since w (snd (handler cfg rid ev w)))) \<le> 1
   \<and> (\<not> env_truthy (DELETE_DYNAMO_ON_FAIL cfg) \<and> submissions_recorded cfg k xs w \<longrightarrow>
        length (filter (submits_for k) (calls_since w (run cfg xs w))) \<le> 1)
   \<and> ((\<forall>n. faults w n = None) \<and>
       filter is_submit (calls_since w (snd (handler cfg rid ev w))) \<noteq> [] \<longrightarrow>
        fst (handler cfg rid ev w) =
          Inr [(''status'', JInt 201), (''message'', JStr ''job created and submitted''),
               (''dump'', JNull)] \<and>
        recorded (snd (handler cfg rid ev w)) (ev_cache_key ev) \<and>
        lock_owner (snd (handler cfg rid ev w)) (ev_cache_key ev) = None)
   \<and> (\<not> env_truthy (DELETE_DYNAMO_ON_FAIL cfg) \<and> (\<forall>n. faults w n = None) \<and> answered xs \<longrightarrow>
        length (filter (submits_for k) (calls_since w (run cfg xs w))) \<le> 1)
   \<and> (\<not> env_truthy (DELETE_DYNAMO_ON_FAIL cfg) \<and> recorded w k \<longrightarrow>
        filter (submission_for cfg k) (calls_since w (run cfg xs w)) = [] \<and>
        recorded (run cfg xs w) k)"
proof (intro conjI impI)
  assume "filter is_submission (calls_since w (snd (handler cfg rid ev w))) \<noteq> []"
  then have g: "fst (lock \<lparr>d_cache_key = ev_cache_key ev, run_id = rid\<rparr> None w) = Inr True \<and>
         (\<exists>b. loaded w (ev_cache_key ev) = Inr b \<and> status b = JNull)"
    by (rule submission_guarded)
  show "fst (lock \<lparr>d_cache_key = ev_cache_key ev, run_id = rid\<rparr> None w) = Inr True"
    using g by simp
  show "\<exists>b. loaded w (ev_cache_key ev) = Inr b \<and> status b = JNull"
    using g by simp
next
  show "length (filter (submits_for k) (calls_since w (snd (handler cfg rid ev w)))) \<le> 1"
    by (rule handler_at_most_one)
next
  assume "\<not> env_truthy (DELETE_DYNAMO_ON_FAIL cfg) \<and> submissions_recorded cfg k xs w"
  then show "length (filter (submits_for k) (calls_since w (run cfg xs w))) \<le> 1"
    using run_at_most_once by blast
next
  assume a: "(\<forall>n. faults w n = None) \<and>
       filter is_submit (calls_since w (snd (handler cfg rid ev w))) \<noteq> []"
  have r: "fst (handler cfg rid ev w) =
          Inr [(''status'', JInt 201), (''message'', JStr ''job created and submitted''),
               (''dump'', JNull)] \<and>
        recorded (snd (handler cfg rid ev w)) (ev_cache_key ev) \<and>
        lock_owner (snd (handler cfg rid ev w)) (ev_cache_key ev) = None"
    using a by (intro handler_submitted_recorded) simp_all
  show "fst (handler cfg rid ev w) =
          Inr [(''status'', JInt 201), (''message'', JStr ''job created and submitted''),
               (''dump'', JNull)]"
    using r by simp
  show "recorded (snd (handler cfg rid ev w)) (ev_cache_key ev)"
    using r by simp
  show "lock_owner (snd (handler cfg rid ev w)) (ev_cache_key ev) = None"
    using r by simp
next
  assume a: "\<not> env_truthy (DELETE_DYNAMO_ON_FAIL cfg) \<and> (\<forall>n. faults w n = None) \<and> answered xs"
  then have "submissions_recorded cfg k xs w"
    by (intro answered_submissions_recorded) simp_all
  then show "length (filter (submits_for k) (calls_since w (run cfg xs w))) \<le> 1"
    using a run_at_most_once by blast
next
  assume a: "\<not> env_truthy (DELETE_DYNAMO_ON_FAIL cfg) \<and> recorded w k"
  then have r: "filter (submission_for cfg k) (calls_since w (run cfg xs w)) = [] \<and>
         recorded (run cfg xs w) k"
    by (intro recorded_stays) simp_all
  show "filter (submission_for cfg k) (calls_since w (run cfg xs w)) = []"
    using r by simp
  show "recorded (run cfg xs w) k"
    using r by simp
qed

theorem submission_guard_witness:
  "filter is_submission
     (calls_since new_world (snd (handler example_config ''r1'' example_event new_world))) \<noteq> []
   \<and> fst (lock \<lparr>d_cache_key = ''k'', run_id = ''r1''\<rparr> None new_world) = Inr True
   \<and> loaded new_world ''k'' =
       Inr \<lparr>cache_key = ''k'', job_id = JNull, job_def = JNull, status = JNull,
            iters = JInt 0, client = None\<rparr>
   \<and> \<not> env_truthy (DELETE_DYNAMO_ON_FAIL example_config)
   \<and> (\<forall>n. faults new_world n = None)
   \<and> answered [Invoke ''r1'' example_event, Invoke ''r2'' example_event, Outside failed_outside,
               Invoke ''r3'' example_event]
   \<and> submissions_recorded example_config ''k''
       [Invoke ''r1'' example_event, Invoke ''r2'' example_event, Outside failed_outside,
        Invoke ''r3'' example_event] new_world
   \<and> filter (submits_for ''k'')
       (calls_since new_world
          (run example_config
             [Invoke ''r1'' example_event, Invoke ''r2'' example_event, Outside failed_outside,
              Invoke ''r3'' example_event]
             new_world)) = [BatchSubmit ''fn-k'' ''cpu'' ''arn'']
   \<and> fst (handler example_config ''r1'' example_event new_world) =
       Inr [(''status'', JInt 201), (''message'', JStr ''job created and submitted''),
            (''dump'', JNull)]
   \<and> recorded (snd (handler example_config ''r1'' example_event new_world)) ''k''
   \<and> recorded pending_world ''k''
   \<and> filter (submission_for example_config ''k'')
       (calls_since pending_world
          (run example_config
             [Invoke ''r1'' example_event, Outside failed_outside, Invoke ''r2'' example_event,
              Invoke ''r3'' example_event]
             pending_world)) = []
   \<and> loaded (run example_config
               [Invoke ''r1'' example_event, Outside failed_outside, Invoke ''r2'' example_event,
                Invoke ''r3'' example_event]
               pending_world) ''k'' =
       Inr \<lparr>cache_key = ''k'', job_id = JStr ''job'', job_def = JStr ''arn'',
            status = JStr ''FAILED'', iters = JInt 0, client = None\<rparr>"
  using submission_guard [of new_world example_config "''r1''" example_event "''k''"
      "[Invoke ''r1'' example_event, Invoke ''r2'' example_event, Outside failed_outside,
        Invoke ''r3'' example_event]"]
    submission_guard [of pending_world example_config "''r1''" example_event "''k''"
      "[Invoke ''r1'' example_event, Outside failed_outside, Invoke ''r2'' example_event,
        Invoke ''r3'' example_event]"]
  by (simp add: io_defs dynamo_defs s3_defs batch_defs handler_defs observer_defs example_defs
      dumps_compact_def dumps_str_def escape_char_def recorded_def input_key_def)

text \<open>
  C4 as stated fails in these histories. With deletion of the records of failed jobs
  configured, the job is submitted, it fails, the second invocation deletes the record, and
  the third submits a job for the same cache key again. When the upload of the input fails,
  the invocation answers 400 and the next one enters the branch again: the input is
  uploaded twice, the job submitted once. A record with a job identifier and no status
  does not keep the branch from running: the code tests the status. And when the write of
  the record after \<^verbatim>\<open>submit_job\<close> is refused, the handler, which drops the result of
  \<^verbatim>\<open>dynamo.put\<close>, answers 201 with nothing stored, and the next invocation submits a
  second job.
\<close>

theorem resubmission_after_cleanup:
  "filter (submits_for ''k'')
     (calls_since new_world
        (run cleanup_config
           [Invoke ''r1'' example_event, Outside failed_outside,
            Invoke ''r2'' example_event, Invoke ''r3'' example_event]
           new_world)) =
     [BatchSubmit ''fn-k'' ''cpu'' ''arn'', BatchSubmit ''fn-k'' ''cpu'' ''arn'']
   \<and> table (run cleanup_config
              [Invoke ''r1'' example_event, Outside failed_outside, Invoke ''r2'' example_event]
              new_world) ''k'' = None
   \<and> fst (handler example_config ''r1'' example_event (failing_world 2 (throttled ''PutObject''))) =
       Inr [(''status'', JInt 400), (''message'', JStr (str_error (throttled ''PutObject''))),
            (''dump'', JNull)]
   \<and> filter (submission_for example_config ''k'')
       (calls_since (failing_world 2 (throttled ''PutObject''))
          (run example_config [Invoke ''r1'' example_event, Invoke ''r2'' example_event]
             (failing_world 2 (throttled ''PutObject'')))) =
       [S3Put ''k/input.data'' ''input'', S3Put ''k/input.data'' ''input'',
        BatchRegister ''fn-k''
          [(''image'', JStr ''python:3.12''),
           (''command'', JList [JStr ''python3'', JStr ''-c'', JStr ''print(1)'']),
           (''environment'', JList
              [JObj [(''name'', JStr ''DML_INPUT''), (''value'', JStr ''s3://bucket/k/input.data'')],
               JObj [(''name'', JStr ''DML_OUTPUT''), (''value'', JStr ''s3://bucket/k/result.dump'')]]),
           (''jobRoleArn'', JStr ''role''), (''vcpus'', JInt 1), (''memory'', JInt 512)],
        BatchSubmit ''fn-k'' ''cpu'' ''arn'']
   \<and> loaded orphan_world ''k'' =
       Inr \<lparr>cache_key = ''k'', job_id = JStr ''job'', job_def = JNull, status = JNull,
            iters = JInt 0, client = None\<rparr>
   \<and> filter is_submit
       (calls_since orphan_world (snd (handler example_config ''r1'' example_event orphan_world))) =
       [BatchSubmit ''fn-k'' ''cpu'' ''arn'']
   \<and> fst (handler example_config ''r1'' example_event (failing_world 5 refused)) =
       Inr [(''status'', JInt 201), (''message'', JStr ''job created and submitted''),
            (''dump'', JNull)]
   \<and> stored (snd (handler example_config ''r1'' example_event (failing_world 5 refused))) ''k'' = None
   \<and> filter (submits_for ''k'')
       (calls_since (failing_world 5 refused)
          (run example_config [Invoke ''r1'' example_event, Invoke ''r2'' example_event]
             (failing_world 5 refused))) =
       [BatchSubmit ''fn-k'' ''cpu'' ''arn'', BatchSubmit ''fn-k'' ''cpu'' ''arn'']"
  by (simp add: io_defs dynamo_defs s3_defs batch_defs handler_defs observer_defs example_defs
      dumps_compact_def dumps_str_def escape_char_def input_key_def)

section \<open>The iteration count\<close>

text \<open>
  C1. The record says \<open>SUCCEEDED\<close>, the output is absent and the count is 0, within the
  budget. The handler answers that it waits for the output and writes the record, but the
  record it writes has no iteration count: the next invocation loads 0 again, not 1.
\<close>

theorem iterations_not_persisted:
  "loaded succeeded_world ''k'' =
     Inr \<lparr>cache_key = ''k'', job_id = JStr ''job'', job_def = JStr ''arn'',
          status = JStr ''SUCCEEDED'', iters = JInt 0, client = None\<rparr>
   \<and> s3 succeeded_world ''k/result.dump'' = None
   \<and> fst (handler example_config ''r1'' example_event succeeded_world) =
       Inr [(''status'', JInt 204), (''message'', JStr ''waiting for task to write output''),
            (''dump'', JNull)]
   \<and> stored (snd (handler example_config ''r1'' example_event succeeded_world)) ''k'' =
       Some (JObj [(''job_id'', JStr ''job''), (''job_def'', JStr ''arn''),
                   (''status'', JStr ''SUCCEEDED'')])
   \<and> loaded (snd (handler example_config ''r1'' example_event succeeded_world)) ''k'' =
       Inr \<lparr>cache_key = ''k'', job_id = JStr ''job'', job_def = JStr ''arn'',
            status = JStr ''SUCCEEDED'', iters = JInt 0, client = None\<rparr>"
  by (simp add: io_defs dynamo_defs s3_defs batch_defs handler_defs observer_defs example_defs)

text \<open>
  C2. Since the count is loaded as 0 every time, each of two consecutive invocations that
  find the record \<open>SUCCEEDED\<close> and the output absent deregisters the job definition.
\<close>

theorem job_definition_released_again:
  "filter is_deregister
     (calls_since succeeded_world
        (snd (handler example_config ''r1'' example_event succeeded_world))) =
     [BatchDeregister ''arn'']
   \<and> filter is_deregister
       (calls_since (snd (handler example_config ''r1'' example_event succeeded_world))
          (snd (handler example_config ''r2'' example_event
                  (snd (handler example_config ''r1'' example_event succeeded_world))))) =
       [BatchDeregister ''arn'']"
  by (simp add: io_defs dynamo_defs s3_defs batch_defs handler_defs observer_defs example_defs)

end
